theory Spec2Isabelle
  imports Main
begin

section \<open>JavaScript values of the configuration document\<close>

text \<open>
  The configuration is whatever \<^verbatim>\<open>JSON.parse\<close> returns, so the model works on
  JavaScript values. A number is an integer that a double holds (ports and counters;
  fractional numbers are not modelled). An array carries its elements and the named
  properties that were assigned to it; an object is its own properties in insertion
  order, every name once. The values of the properties are values of this type, so
  none of them is a function.
\<close>

datatype jsval =
    JUndefined
  | JNull
  | JBool bool
  | JNum int
  | JStr string
  | JArr "jsval list" "(string \<times> jsval) list"
  | JObj "(string \<times> jsval) list"

datatype error = TypeError | CalledTwice

text \<open>
  How a method of the server ends: it returns, or an exception leaves it. Both come with
  the state of the server at that moment.
\<close>

datatype 'a outcome = Returned 'a | Threw error 'a

fun state_of :: "'a outcome \<Rightarrow> 'a" where
  "state_of (Returned s) = s"
| "state_of (Threw e s) = s"

fun returned :: "'a outcome \<Rightarrow> bool" where
  "returned (Returned s) = True"
| "returned (Threw e s) = False"

text \<open>
  What the JavaScript engine does and the model takes as given: the comparison
  \<^verbatim>\<open>a > b\<close> of two primitive values that are not both numbers (it converts them
  and does not throw), and the text of a number from \<open>10\<^sup>2\<^sup>1\<close> on, which is written
  with an exponent.
\<close>

record engine =
  primitive_gt :: "jsval \<Rightarrow> jsval \<Rightarrow> bool"
  exponent_text :: "int \<Rightarrow> string"

text \<open>Truthiness, as \<^verbatim>\<open>if (v)\<close> and \<^verbatim>\<open>!v\<close> read a value.\<close>

fun truthy :: "jsval \<Rightarrow> bool" where
  "truthy JUndefined = False"
| "truthy JNull = False"
| "truthy (JBool b) = b"
| "truthy (JNum n) = (n \<noteq> 0)"
| "truthy (JStr s) = (s \<noteq> [])"
| "truthy (JArr xs ps) = True"
| "truthy (JObj kvs) = True"

text \<open>
  \<^verbatim>\<open>v.k\<close> for the property names that the server reads from the configuration
  (\<^verbatim>\<open>ports\<close>, \<^verbatim>\<open>start\<close>, \<^verbatim>\<open>end\<close>, \<^verbatim>\<open>bridge\<close>, \<^verbatim>\<open>username\<close>,
  \<^verbatim>\<open>accessories\<close>, \<^verbatim>\<open>platforms\<close>, \<^verbatim>\<open>accessory\<close>, \<^verbatim>\<open>platform\<close>; no
  prototype has a member of these names) and for \<^verbatim>\<open>length\<close>: reading a property of
  \<^verbatim>\<open>null\<close> or \<^verbatim>\<open>undefined\<close> throws a TypeError, a missing property is
  \<^verbatim>\<open>undefined\<close>.
\<close>

fun get_prop :: "jsval \<Rightarrow> string \<Rightarrow> error + jsval" where
  "get_prop JUndefined k = Inl TypeError"
| "get_prop JNull k = Inl TypeError"
| "get_prop (JBool b) k = Inr JUndefined"
| "get_prop (JNum n) k = Inr JUndefined"
| "get_prop (JStr s) k = Inr (if k = ''length'' then JNum (int (length s)) else JUndefined)"
| "get_prop (JArr xs ps) k =
     Inr (if k = ''length'' then JNum (int (length xs))
          else (case map_of ps k of Some v \<Rightarrow> v | None \<Rightarrow> JUndefined))"
| "get_prop (JObj kvs) k = Inr (case map_of kvs k of Some v \<Rightarrow> v | None \<Rightarrow> JUndefined)"

text \<open>Storing under a key keeps the key's position, or appends a new key.\<close>

fun put :: "'k \<Rightarrow> 'v \<Rightarrow> ('k \<times> 'v) list \<Rightarrow> ('k \<times> 'v) list" where
  "put k v [] = [(k, v)]"
| "put k v (p # ps) = (if fst p = k then (k, v) # ps else p # put k v ps)"

text \<open>
  \<^verbatim>\<open>v.k = x\<close> for the same property names, and for a name that is an own property
  of the object. The server is a class body, which is strict-mode code: assigning a
  property on a primitive throws a TypeError, as on \<^verbatim>\<open>null\<close> and \<^verbatim>\<open>undefined\<close>.
\<close>

fun set_prop :: "jsval \<Rightarrow> string \<Rightarrow> jsval \<Rightarrow> error + jsval" where
  "set_prop (JObj kvs) k x = Inr (JObj (put k x kvs))"
| "set_prop (JArr xs ps) k x = Inr (JArr xs (put k x ps))"
| "set_prop v k x = Inl TypeError"

text \<open>Decimal digits of a number, for its conversion to a string.\<close>

fun digits :: "nat \<Rightarrow> string" where
  "digits n = (if n < 10 then [char_of (48 + n)] else digits (n div 10) @ [char_of (48 + n mod 10)])"

text \<open>The text of a number: its decimal digits below \<open>10\<^sup>2\<^sup>1\<close>.\<close>

definition number_text :: "engine \<Rightarrow> int \<Rightarrow> string" where
  "number_text eng n =
     (if \<bar>n\<bar> < 10 ^ 21 then (if n < 0 then ''-'' @ digits (nat (- n)) else digits (nat n))
      else exponent_text eng n)"

text \<open>The texts of the elements joined by commas; the first conversion that throws ends it.\<close>

fun join_comma :: "(error + string) list \<Rightarrow> error + string" where
  "join_comma [] = Inr []"
| "join_comma (Inl e # rest) = Inl e"
| "join_comma [Inr s] = Inr s"
| "join_comma (Inr s # r # rest) =
     (case join_comma (r # rest) of Inl e \<Rightarrow> Inl e | Inr t \<Rightarrow> Inr (s @ '','' @ t))"

text \<open>
  \<^verbatim>\<open>String(v)\<close>, the conversion that \<^verbatim>\<open>RegExp.prototype.test\<close> applies to its
  argument. An object is converted by its \<^verbatim>\<open>toString\<close>: the inherited one gives
  \<^verbatim>\<open>[object Object]\<close>, and for an array the elements joined by commas, \<^verbatim>\<open>null\<close> and
  \<^verbatim>\<open>undefined\<close> elements empty. An own property \<^verbatim>\<open>toString\<close> hides the inherited
  one and is no function; then \<^verbatim>\<open>valueOf\<close> is tried, which gives no primitive value,
  and the conversion throws a TypeError. An own property \<^verbatim>\<open>join\<close> of an array is no
  function either, and the array is \<^verbatim>\<open>[object Array]\<close>.
\<close>

fun toString :: "engine \<Rightarrow> jsval \<Rightarrow> error + string" where
  "toString eng JUndefined = Inr ''undefined''"
| "toString eng JNull = Inr ''null''"
| "toString eng (JBool b) = Inr (if b then ''true'' else ''false'')"
| "toString eng (JNum n) = Inr (number_text eng n)"
| "toString eng (JStr s) = Inr s"
| "toString eng (JArr xs ps) =
     (if map_of ps ''toString'' \<noteq> None then Inl TypeError
      else if map_of ps ''join'' \<noteq> None then Inr ''[object Array]''
      else join_comma (map (\<lambda>x. if x = JNull \<or> x = JUndefined then Inr [] else toString eng x) xs))"
| "toString eng (JObj kvs) =
     (if map_of kvs ''toString'' \<noteq> None then Inl TypeError else Inr ''[object Object]'')"

text \<open>
  The conversion of an operand of \<^verbatim>\<open>>\<close> to a primitive value. For an object
  \<^verbatim>\<open>valueOf\<close> is tried first and gives no primitive value (the inherited one returns
  the object, an own one is no function), so the result is that of \<^verbatim>\<open>toString\<close>.
\<close>

definition to_primitive :: "engine \<Rightarrow> jsval \<Rightarrow> error + jsval" where
  "to_primitive eng v =
     (case v of
        JArr xs ps \<Rightarrow> (case toString eng v of Inl e \<Rightarrow> Inl e | Inr s \<Rightarrow> Inr (JStr s))
      | JObj kvs \<Rightarrow> (case toString eng v of Inl e \<Rightarrow> Inl e | Inr s \<Rightarrow> Inr (JStr s))
      | _ \<Rightarrow> Inr v)"

section \<open>Loading the configuration\<close>

text \<open>
  The regular expression \<^verbatim>\<open>/^([0-9A-F]{2}:){5}([0-9A-F]{2})$/\<close> of \<^verbatim>\<open>loadConfig\<close>.
  It has no \<^verbatim>\<open>i\<close> flag.
\<close>

definition hex_upper :: "char \<Rightarrow> bool" where
  "hex_upper c = (c \<in> set ''0123456789ABCDEF'')"

text \<open>\<^verbatim>\<open>([0-9A-F]{2}:){n}\<close> at the start of a string: what follows the match.\<close>

fun hex_pairs_colon :: "nat \<Rightarrow> string \<Rightarrow> string option" where
  "hex_pairs_colon 0 s = Some s"
| "hex_pairs_colon (Suc n) (a # b # c # s) =
     (if hex_upper a \<and> hex_upper b \<and> c = CHR '':'' then hex_pairs_colon n s else None)"
| "hex_pairs_colon (Suc n) s = None"

definition username_regex_test :: "string \<Rightarrow> bool" where
  "username_regex_test s =
     (case hex_pairs_colon 5 s of
        Some [a, b] \<Rightarrow> hex_upper a \<and> hex_upper b
      | _ \<Rightarrow> False)"

text \<open>
  What \<^verbatim>\<open>loadConfig\<close> finds at the configuration path: no file
  (\<^verbatim>\<open>existsSync\<close> is false), a file that \<^verbatim>\<open>readFileSync\<close> or \<^verbatim>\<open>JSON.parse\<close>
  throws on, or a parsed document.
\<close>

datatype config_file = Missing | Unparsable | Parsed jsval

definition default_username :: string where
  "default_username = ''CC:22:3D:E3:CE:30''"

definition default_config :: jsval where
  "default_config =
     JObj [(''bridge'', JObj [(''name'', JStr ''HOOBS''),
                              (''username'', JStr default_username),
                              (''pin'', JStr ''031-45-154'')])]"

text \<open>
  \<^verbatim>\<open>a > b\<close>: both operands are converted to primitive values, the left one first,
  which may throw; two numbers are compared as numbers, and other primitive values as
  the engine compares them.
\<close>

definition js_gt :: "engine \<Rightarrow> jsval \<Rightarrow> jsval \<Rightarrow> error + bool" where
  "js_gt eng a b =
     (case to_primitive eng a of
        Inl e \<Rightarrow> Inl e
      | Inr pa \<Rightarrow>
          (case to_primitive eng b of
             Inl e \<Rightarrow> Inl e
           | Inr pb \<Rightarrow>
               Inr (case (pa, pb) of (JNum x, JNum y) \<Rightarrow> y < x | _ \<Rightarrow> primitive_gt eng pa pb)))"

text \<open>The port-pool check of \<^verbatim>\<open>loadConfig\<close> (lines 209 to 215).\<close>

definition check_ports :: "engine \<Rightarrow> jsval \<Rightarrow> error + jsval" where
  "check_ports eng config =
     (case get_prop config ''ports'' of
        Inl e \<Rightarrow> Inl e
      | Inr ports \<Rightarrow>
          if ports \<noteq> JUndefined then
            (case get_prop ports ''start'' of
               Inl e \<Rightarrow> Inl e
             | Inr start \<Rightarrow>
                 (case get_prop ports ''end'' of
                    Inl e \<Rightarrow> Inl e
                  | Inr end' \<Rightarrow>
                      (case js_gt eng start end' of
                         Inl e \<Rightarrow> Inl e
                       | Inr wrong \<Rightarrow>
                           if wrong then set_prop config ''ports'' JUndefined else Inr config)))
          else Inr config)"

text \<open>The username check of \<^verbatim>\<open>loadConfig\<close> (lines 217 to 221).\<close>

definition check_username :: "engine \<Rightarrow> jsval \<Rightarrow> error + jsval" where
  "check_username eng config =
     (case get_prop config ''bridge'' of
        Inl e \<Rightarrow> Inl e
      | Inr bridge \<Rightarrow>
          (case get_prop bridge ''username'' of
             Inl e \<Rightarrow> Inl e
           | Inr username \<Rightarrow>
               (case toString eng username of
                  Inl e \<Rightarrow> Inl e
                | Inr str \<Rightarrow>
                    if \<not> username_regex_test str then
                      (case set_prop bridge ''username'' (JStr default_username) of
                         Inl e \<Rightarrow> Inl e
                       | Inr bridge' \<Rightarrow> set_prop config ''bridge'' bridge')
                    else Inr config)))"

definition loadConfig :: "engine \<Rightarrow> config_file \<Rightarrow> error + jsval" where
  "loadConfig eng file =
     (case file of
        Missing \<Rightarrow> Inr default_config
      | Unparsable \<Rightarrow> Inr default_config
      | Parsed config \<Rightarrow>
          (case check_ports eng config of
             Inl e \<Rightarrow> Inl e
           | Inr config' \<Rightarrow> check_username eng config'))"

section \<open>The server's state\<close>

text \<open>
  A platform accessory as the server reads it: its display name, its UUID, and the plugin
  and platform it is associated with (\<open>None\<close> is \<^verbatim>\<open>undefined\<close>). An entry of the
  cache is such an accessory, or something that is not an instance of \<^verbatim>\<open>Platform\<close>.
\<close>

record platform_accessory =
  displayName :: string
  UUID :: string
  associatedPlugin :: "string option"
  associatedPlatform :: "string option"

datatype cached_accessory = IsPlatform platform_accessory | NotPlatform

text \<open>A platform instance that a plugin's constructor returned, by its identity.\<close>

type_synonym platform_instance = nat

record port_pool =
  pool_start :: int
  pool_end :: int

text \<open>
  What the server does to its collaborators (the loggers, the parent process, the plugins,
  the bridge and the accessories of the protocol engine, the persistence engine, the
  file system), in the order it does it. The publish options other than the username and
  the port are read from the configuration and passed through; they are left out.
\<close>

datatype effect =
    InternalInfo string
  | InternalWarn string
  | InternalError string
  | PluginLog string
  | ProcessSend string string
  | ApiEmit string
  | ConfigureAccessory platform_instance platform_accessory
  | AddBridgedAccessory string
  | BridgePublish
  | BridgeUnpublish
  | AccessoryPublish string int
  | AccessoryUnpublish string
  | PersistSetItem "cached_accessory list"
  | WriteFile jsval
  | SetTimeout nat int

text \<open>
  The fields of \<^verbatim>\<open>Server\<close>. \<open>externalPorts\<close> is \<^verbatim>\<open>config.ports\<close> when that is a
  pool of two numbers, \<open>None\<close> when it is \<^verbatim>\<open>undefined\<close>. The two tables are
  plain objects (\<^verbatim>\<open>{}\<close>) used as dictionaries: their own properties are association
  lists in insertion order. \<open>onceCalled\<close> holds, for every callback that
  \<^verbatim>\<open>loadPlatformAccessories\<close> wrapped in \<^verbatim>\<open>once\<close>, whether it has been called.
\<close>

record server =
  config :: jsval
  cachedPlatformAccessories :: "cached_accessory list"
  removeOrphans :: bool
  externalPorts :: "port_pool option"
  nextExternalPort :: "int option"
  activeDynamicPlugins :: "(string \<times> platform_instance) list"
  publishedAccessories :: "(string \<times> platform_accessory) list"
  asyncCalls :: int
  asyncWait :: bool
  onceCalled :: "bool list"
  effects :: "effect list"

definition emit :: "effect list \<Rightarrow> server \<Rightarrow> server" where
  "emit es s = s\<lparr>effects := effects s @ es\<rparr>"

text \<open>
  Reading a plain object under a key finds an own property, or else a member of
  \<^verbatim>\<open>Object.prototype\<close>, which is a function or an object and so truthy, or nothing
  (\<^verbatim>\<open>undefined\<close>).
\<close>

definition object_prototype_members :: "string list" where
  "object_prototype_members =
     [''constructor'', ''__defineGetter__'', ''__defineSetter__'', ''hasOwnProperty'',
      ''__lookupGetter__'', ''__lookupSetter__'', ''isPrototypeOf'', ''propertyIsEnumerable'',
      ''toString'', ''valueOf'', ''__proto__'', ''toLocaleString'']"

datatype 'v found = Own 'v | Member | Absent

definition table_get :: "(string \<times> 'v) list \<Rightarrow> string \<Rightarrow> 'v found" where
  "table_get table k =
     (case map_of table k of
        Some v \<Rightarrow> Own v
      | None \<Rightarrow> if k \<in> set object_prototype_members then Member else Absent)"

text \<open>
  Storing an object in a plain object under a key. Under the key \<^verbatim>\<open>__proto__\<close> the
  assignment adds no property: it makes the stored object the prototype of the table.
  The model of the table does not follow that, and what is proved of lookups after
  \<^verbatim>\<open>run\<close> is for platform names other than \<^verbatim>\<open>__proto__\<close>.
\<close>

definition table_put :: "string \<Rightarrow> 'v \<Rightarrow> (string \<times> 'v) list \<Rightarrow> (string \<times> 'v) list" where
  "table_put k v table = (if k = ''__proto__'' then table else put k v table)"

text \<open>A text between double quotes, as the log lines have names.\<close>

definition quoted :: "string \<Rightarrow> string" where
  "quoted s = [CHR 0x22] @ s @ [CHR 0x22]"

text \<open>
  The server as the constructor leaves it (lines 58 to 69), for the configuration, the
  pool read from it, the cached accessories read from the store, and the option
  \<^verbatim>\<open>removeOrphans\<close>. The constructor leaves the counter and the flag of
  \<^verbatim>\<open>run\<close> unset, and \<^verbatim>\<open>run\<close> sets both first; they are 0 and false here.
\<close>

definition new_server ::
  "jsval \<Rightarrow> port_pool option \<Rightarrow> cached_accessory list \<Rightarrow> bool \<Rightarrow> server" where
  "new_server cfg pool cached orphans =
     \<lparr>config = cfg,
      cachedPlatformAccessories = cached,
      removeOrphans = orphans,
      externalPorts = pool,
      nextExternalPort = None,
      activeDynamicPlugins = [],
      publishedAccessories = [],
      asyncCalls = 0,
      asyncWait = False,
      onceCalled = [],
      effects = []\<rparr>"

section \<open>Publishing external accessories\<close>

definition upper_char :: "char \<Rightarrow> char" where
  "upper_char c =
     (let n = (of_char c :: nat) in if 97 \<le> n \<and> n \<le> 122 then char_of (n - 32) else c)"

text \<open>\<^verbatim>\<open>toUpperCase\<close> on a text of ASCII characters, as the template and a digest give.\<close>

definition toUpperCase :: "string \<Rightarrow> string" where
  "toUpperCase s = map upper_char s"

text \<open>
  \<^verbatim>\<open>"xx:xx:xx:xx:xx:xx".replace(/[x]/g, function () { i += 1; return s[i]; })\<close>: every
  \<^verbatim>\<open>x\<close> of the template becomes the next character of \<open>s\<close>, and the text
  \<^verbatim>\<open>undefined\<close> once \<open>s\<close> is used up. \<open>i\<close> is the counter before the increment.
\<close>

fun replace_x :: "string \<Rightarrow> string \<Rightarrow> int \<Rightarrow> string" where
  "replace_x [] s i = []"
| "replace_x (c # t) s i =
     (if c = CHR ''x'' then
        (let i' = i + 1 in
           (if i' < int (length s) then [s ! nat i'] else ''undefined'') @ replace_x t s i')
      else c # replace_x t s i)"

text \<open>
  \<^verbatim>\<open>generateAddress\<close>. The SHA-1 digest in hexadecimal is Node's; it is the parameter
  \<open>sha1_hex\<close>.
\<close>

definition generateAddress :: "(string \<Rightarrow> string) \<Rightarrow> string \<Rightarrow> string" where
  "generateAddress sha1_hex data =
     toUpperCase (replace_x ''xx:xx:xx:xx:xx:xx'' (sha1_hex data) (- 1))"

text \<open>What \<^verbatim>\<open>digest("hex")\<close> returns for SHA-1: forty digits, the letters in lowercase.\<close>

definition hex_digest :: "string \<Rightarrow> bool" where
  "hex_digest s = (length s = 40 \<and> list_all (\<lambda>c. c \<in> set ''0123456789abcdef'') s)"

text \<open>
  Arithmetic on numbers is that of doubles. The distance between neighbouring doubles
  at a magnitude (1 below \<open>2\<^sup>5\<^sup>3\<close>, doubling with each binary digit above), and the
  rounding of an integer to the nearest double, to the even one of two that are equally
  near: integers up to \<open>2\<^sup>5\<^sup>3\<close> are doubles, and a larger one is rounded to 53 binary
  digits.
\<close>

function spacing :: "int \<Rightarrow> int" where
  "spacing a = (if a < 2 ^ 53 then 1 else 2 * spacing (a div 2))"
  by pat_completeness auto
termination
  by (relation "measure nat") auto

definition round_double :: "int \<Rightarrow> int" where
  "round_double m =
     (let a = \<bar>m\<bar> in
        if a \<le> 2 ^ 53 then m
        else
          (let u = spacing a;
               q = a div u;
               r = a mod u;
               q' = (if 2 * r < u then q else if u < 2 * r then q + 1
                     else if even q then q else q + 1)
           in sgn m * (q' * u)))"

text \<open>\<^verbatim>\<open>n + 1\<close> and \<^verbatim>\<open>n += 1\<close> on a number.\<close>

definition js_plus1 :: "int \<Rightarrow> int" where
  "js_plus1 n = round_double (n + 1)"

text \<open>
  The port of one external accessory (lines 477 to 495 of
  \<^verbatim>\<open>handlePublishExternalAccessories\<close>): the value of \<^verbatim>\<open>accessoryPort\<close> and the
  state after. \<^verbatim>\<open>undefined > end\<close> is false.
\<close>

definition allocatePort :: "server \<Rightarrow> int \<times> server" where
  "allocatePort s =
     (case externalPorts s of
        None \<Rightarrow> (0, s)
      | Some pool \<Rightarrow>
          if (case nextExternalPort s of None \<Rightarrow> False | Some n \<Rightarrow> n > pool_end pool) then
            (0, emit [InternalInfo ''External port pool ran out of ports. Fallback to random assign.''] s)
          else
            (case nextExternalPort s of
               Some n \<Rightarrow> (n, s\<lparr>nextExternalPort := Some (js_plus1 n)\<rparr>)
             | None \<Rightarrow>
                 (pool_start pool, s\<lparr>nextExternalPort := Some (js_plus1 (pool_start pool))\<rparr>)))"

text \<open>
  One turn of the loop of \<^verbatim>\<open>handlePublishExternalAccessories\<close>. The address is taken
  when the table of published accessories has something truthy under it.
\<close>

definition publishExternalAccessory ::
  "(string \<Rightarrow> string) \<Rightarrow> server \<Rightarrow> platform_accessory \<Rightarrow> server" where
  "publishExternalAccessory sha1_hex s accessory =
     (let (accessoryPort, s1) = allocatePort s;
          advertiseAddress = generateAddress sha1_hex (UUID accessory)
      in if table_get (publishedAccessories s1) advertiseAddress \<noteq> Absent then
           emit [InternalWarn (''Accessory '' @ displayName accessory @ ''experienced an address collision.'')] s1
         else
           emit [AccessoryPublish advertiseAddress accessoryPort]
             (s1\<lparr>publishedAccessories := publishedAccessories s1 @ [(advertiseAddress, accessory)]\<rparr>))"

definition handlePublishExternalAccessories ::
  "(string \<Rightarrow> string) \<Rightarrow> server \<Rightarrow> platform_accessory list \<Rightarrow> server" where
  "handlePublishExternalAccessories sha1_hex s accessories =
     foldl (publishExternalAccessory sha1_hex) s accessories"

text \<open>
  The value of \<^verbatim>\<open>accessoryPort\<close> in each turn of the loop, in order: the ports the
  requests are given, the rejected ones included.
\<close>

fun accessoryPorts :: "(string \<Rightarrow> string) \<Rightarrow> server \<Rightarrow> platform_accessory list \<Rightarrow> int list" where
  "accessoryPorts sha1_hex s [] = []"
| "accessoryPorts sha1_hex s (a # as) =
     fst (allocatePort s) # accessoryPorts sha1_hex (publishExternalAccessory sha1_hex s a) as"

text \<open>The ports that the external accessories were published with, in order.\<close>

fun published_ports :: "effect list \<Rightarrow> int list" where
  "published_ports [] = []"
| "published_ports (AccessoryPublish address port # es) = port # published_ports es"
| "published_ports (e # es) = published_ports es"

section \<open>Reconciling the cached accessories\<close>

text \<open>A value that may be \<^verbatim>\<open>undefined\<close>, as string concatenation and a property key read it.\<close>

definition js_str :: "string option \<Rightarrow> string" where
  "js_str v = (case v of None \<Rightarrow> ''undefined'' | Some s \<Rightarrow> s)"

text \<open>
  The lookup of lines 328 to 332: by \<^verbatim>\<open>plugin.platform\<close>, then, when that is falsy, by
  the bare platform name. An instance is an object, so a stored instance is truthy.
\<close>

definition find_instance ::
  "(string \<times> platform_instance) list \<Rightarrow> platform_accessory \<Rightarrow> platform_instance found" where
  "find_instance plugins accessory =
     (case table_get plugins (js_str (associatedPlugin accessory) @ ''.'' @ js_str (associatedPlatform accessory)) of
        Absent \<Rightarrow> table_get plugins (js_str (associatedPlatform accessory))
      | hit \<Rightarrow> hit)"

text \<open>
  The loop of \<^verbatim>\<open>configCachedPlatformAccessories\<close> over the entries that are left, with
  \<^verbatim>\<open>verifiedAccessories\<close> and the effects so far. The plugin's
  \<^verbatim>\<open>configureAccessory\<close> and the bridge's \<^verbatim>\<open>addBridgedAccessory\<close> are recorded
  as calls: what the plugin and the protocol engine do in them is theirs, and leaves the
  accessory's association and the server's tables as they are. A stored instance has
  \<^verbatim>\<open>configureAccessory\<close>: \<^verbatim>\<open>loadPlatforms\<close> stores no other, and a registered
  dynamic platform has it by the contract of the plugin API. When the lookup gives a
  member of \<^verbatim>\<open>Object.prototype\<close>, that has no \<^verbatim>\<open>configureAccessory\<close>, and
  calling it at line 335 throws a TypeError.
\<close>

fun config_loop ::
  "(string \<times> platform_instance) list \<Rightarrow> bool \<Rightarrow> cached_accessory list \<Rightarrow>
   cached_accessory list \<Rightarrow> effect list \<Rightarrow> (cached_accessory list \<times> effect list) outcome" where
  "config_loop plugins orphans [] verified es = Returned (verified, es)"
| "config_loop plugins orphans (NotPlatform # rest) verified es =
     config_loop plugins orphans rest verified (es @ [ProcessSend ''error_log'' ''Unexpected Accessory''])"
| "config_loop plugins orphans (IsPlatform accessory # rest) verified es =
     (case find_instance plugins accessory of
        Own instance \<Rightarrow>
          config_loop plugins orphans rest (verified @ [IsPlatform accessory])
            (es @ [ConfigureAccessory instance accessory, AddBridgedAccessory (displayName accessory)])
      | Member \<Rightarrow> Threw TypeError (verified, es)
      | Absent \<Rightarrow>
          if orphans then
            config_loop plugins orphans rest verified
              (es @ [ProcessSend ''error_log'' (''Failed to find plugin to handle accessory '' @ displayName accessory),
                     ProcessSend ''info_log'' (''Removing orphaned accessory '' @ displayName accessory)])
          else
            config_loop plugins orphans rest (verified @ [IsPlatform accessory])
              (es @ [ProcessSend ''error_log'' (''Failed to find plugin to handle accessory '' @ displayName accessory),
                     AddBridgedAccessory (displayName accessory)]))"

text \<open>
  \<^verbatim>\<open>configCachedPlatformAccessories\<close>. The cache is assigned at the end (line 351),
  so an exception leaves it as it was.
\<close>

definition configCachedPlatformAccessories :: "server \<Rightarrow> server outcome" where
  "configCachedPlatformAccessories s =
     (case config_loop (activeDynamicPlugins s) (removeOrphans s) (cachedPlatformAccessories s) [] [] of
        Returned (verifiedAccessories, es) \<Rightarrow>
          Returned (emit es (s\<lparr>cachedPlatformAccessories := verifiedAccessories\<rparr>))
      | Threw e (verifiedAccessories, es) \<Rightarrow> Threw e (emit es s))"

text \<open>
  An orphan as the code finds it (line 336): a cached platform accessory for which both
  lookups give nothing. And an orphan as the specification has it: a cached platform
  accessory that no stored instance handles.
\<close>

definition orphan :: "server \<Rightarrow> cached_accessory \<Rightarrow> bool" where
  "orphan s c =
     (case c of NotPlatform \<Rightarrow> False
      | IsPlatform accessory \<Rightarrow> find_instance (activeDynamicPlugins s) accessory = Absent)"

definition spec_orphan :: "server \<Rightarrow> cached_accessory \<Rightarrow> bool" where
  "spec_orphan s c =
     (case c of NotPlatform \<Rightarrow> False
      | IsPlatform accessory \<Rightarrow>
          map_of (activeDynamicPlugins s)
            (js_str (associatedPlugin accessory) @ ''.'' @ js_str (associatedPlatform accessory)) = None
          \<and> map_of (activeDynamicPlugins s) (js_str (associatedPlatform accessory)) = None)"

section \<open>Running and publishing the bridge\<close>

text \<open>
  \<^verbatim>\<open>publish\<close> sets the bridge's information, publishes the bridge and reports the
  setup URI and \<^verbatim>\<open>running\<close> to the parent process.
\<close>

definition publish :: "server \<Rightarrow> server" where
  "publish s = emit [BridgePublish, ProcessSend ''setup_uri'' [], ProcessSend ''running'' []] s"

text \<open>
  The body of the callback of \<^verbatim>\<open>loadPlatformAccessories\<close> (lines 358 to 370), for the
  names of the found accessories: the counter goes down, every accessory is created and
  added to the bridge, and the bridge is published if the counter is 0 and the loading
  is over. The plugin passes an array of accessories that the protocol engine accepts.
\<close>

definition foundAccessoriesCallback :: "string list \<Rightarrow> server \<Rightarrow> server" where
  "foundAccessoriesCallback foundAccessories s =
     (let s1 = s\<lparr>asyncCalls := asyncCalls s - 1\<rparr>;
          s2 = emit (concat (map (\<lambda>name.
                  [PluginLog (''Initializing platform accessory '' @ quoted name @ ''...''),
                   AddBridgedAccessory name]) foundAccessories)) s1
      in if asyncCalls s2 = 0 \<and> \<not> asyncWait s2 then publish s2 else s2)"

text \<open>
  Calling the callback number \<open>k\<close>. \<^verbatim>\<open>once\<close> (of the protocol engine's library) runs
  the wrapped function at the first call and throws at every later one, without running
  it. A number that no callback has is not a call.
\<close>

definition callOnce :: "nat \<Rightarrow> string list \<Rightarrow> server \<Rightarrow> error + server" where
  "callOnce k foundAccessories s =
     (if k < length (onceCalled s) then
        (if onceCalled s ! k then Inl CalledTwice
         else Inr (foundAccessoriesCallback foundAccessories (s\<lparr>onceCalled := (onceCalled s)[k := True]\<rparr>)))
      else Inr s)"

text \<open>
  What a platform's \<^verbatim>\<open>accessories\<close> method does with the callback it is given: it calls
  it before it returns, or it keeps it for later. \<^verbatim>\<open>run\<close> is synchronous, so a
  callback that is kept is not called before \<^verbatim>\<open>run\<close> has set the flag to false.
\<close>

datatype discovery = Immediately "string list" | Later

definition loadPlatformAccessories :: "discovery \<Rightarrow> server \<Rightarrow> server" where
  "loadPlatformAccessories d s =
     (let k = length (onceCalled s);
          s1 = s\<lparr>asyncCalls := asyncCalls s + 1, onceCalled := onceCalled s @ [False]\<rparr>
      in case d of
           Later \<Rightarrow> s1
         | Immediately foundAccessories \<Rightarrow>
             (case callOnce k foundAccessories s1 of Inl e \<Rightarrow> s1 | Inr s2 \<Rightarrow> s2))"

text \<open>
  An entry of \<^verbatim>\<open>config.platforms\<close> as the plugin API resolves it: no plugin published
  the platform, or the constructed instance has \<^verbatim>\<open>configureAccessory\<close> (a dynamic
  platform), or it has not.
\<close>

datatype platform_entry =
    NoPlatform string
  | DynamicPlatform string platform_instance
  | StaticPlatform string discovery

fun loadPlatform :: "server \<Rightarrow> platform_entry \<Rightarrow> server" where
  "loadPlatform s (NoPlatform name) =
     emit [InternalWarn (''Your config.json is requesting the platform '' @ quoted name @ '' which has not been published by any installed plugins.'')] s"
| "loadPlatform s (DynamicPlatform name instance) =
     s\<lparr>activeDynamicPlugins := table_put name instance (activeDynamicPlugins s)\<rparr>"
| "loadPlatform s (StaticPlatform name d) = loadPlatformAccessories d s"

definition loadPlatforms :: "platform_entry list \<Rightarrow> server \<Rightarrow> server" where
  "loadPlatforms platforms s = foldl loadPlatform s platforms"

text \<open>
  An entry of \<^verbatim>\<open>config.accessories\<close> as the plugin API and \<^verbatim>\<open>createAccessory\<close>
  resolve it: no plugin published the accessory, or there is nothing to bridge, or an
  accessory of that name.
\<close>

datatype accessory_entry = NoAccessory string | NothingToBridge | Bridged string

fun loadAccessory :: "server \<Rightarrow> accessory_entry \<Rightarrow> server" where
  "loadAccessory s (NoAccessory name) =
     emit [InternalWarn (''Your config.json is requesting the accessory '' @ quoted name @ '' which has not been published by any installed plugins.'')] s"
| "loadAccessory s NothingToBridge = s"
| "loadAccessory s (Bridged name) = emit [AddBridgedAccessory name] s"

definition loadAccessories :: "accessory_entry list \<Rightarrow> server \<Rightarrow> server" where
  "loadAccessories accessories s = foldl loadAccessory s accessories"

text \<open>\<^verbatim>\<open>name.split(".")\<close>.\<close>

fun split_dot :: "string \<Rightarrow> string list" where
  "split_dot [] = [[]]"
| "split_dot (c # s) =
     (if c = CHR ''.'' then [] # split_dot s
      else (case split_dot s of [] \<Rightarrow> [[c]] | p # ps \<Rightarrow> (c # p) # ps))"

text \<open>\<^verbatim>\<open>name.split(".")[1]\<close>, \<open>None\<close> when it is \<^verbatim>\<open>undefined\<close>.\<close>

definition second_part :: "string \<Rightarrow> string option" where
  "second_part name = (case split_dot name of a # b # rest \<Rightarrow> Some b | _ \<Rightarrow> None)"

text \<open>
  \<^verbatim>\<open>loadDynamicPlatforms\<close> over \<^verbatim>\<open>api.dynamicPlatforms\<close>: every registered dynamic
  platform for which the table has nothing truthy under its full name or under its second
  part is constructed and becomes active under its full name.
\<close>

fun loadDynamicPlatform :: "server \<Rightarrow> string \<times> platform_instance \<Rightarrow> server" where
  "loadDynamicPlatform s (dynamicPluginName, instance) =
     (if table_get (activeDynamicPlugins s) dynamicPluginName = Absent
         \<and> table_get (activeDynamicPlugins s) (js_str (second_part dynamicPluginName)) = Absent then
        emit [ProcessSend ''info_log'' (''Load '' @ dynamicPluginName)]
          (s\<lparr>activeDynamicPlugins := table_put dynamicPluginName instance (activeDynamicPlugins s)\<rparr>)
      else s)"

definition loadDynamicPlatforms :: "(string \<times> platform_instance) list \<Rightarrow> server \<Rightarrow> server" where
  "loadDynamicPlatforms dynamicPlatforms s = foldl loadDynamicPlatform s dynamicPlatforms"

text \<open>
  The plugins as \<^verbatim>\<open>run\<close> meets them: the entries of \<^verbatim>\<open>config.platforms\<close> and
  \<^verbatim>\<open>config.accessories\<close> resolved (an absent list is empty), and the dynamic platforms
  registered with the API.
\<close>

record plugins =
  platforms :: "platform_entry list"
  accessories :: "accessory_entry list"
  dynamicPlatforms :: "(string \<times> platform_instance) list"

text \<open>
  The platforms of the configuration whose instances \<^verbatim>\<open>loadPlatforms\<close> stores in the
  table of active dynamic plugins are none of them named \<^verbatim>\<open>__proto__\<close>. (A registered
  dynamic platform of that name is never stored: the lookup under it is truthy.)
\<close>

fun stored_name :: "platform_entry \<Rightarrow> string option" where
  "stored_name (DynamicPlatform name instance) = Some name"
| "stored_name e = None"

definition plain_names :: "plugins \<Rightarrow> bool" where
  "plain_names p = (Some ''__proto__'' \<notin> set (map stored_name (platforms p)))"

text \<open>
  The synchronous loading pass of \<^verbatim>\<open>run\<close> (lines 82 to 94): the counter and the flag
  are set, the platforms, the accessories and the dynamic platforms are loaded, and the
  cache is reconciled. The registrations with the setup manager that follow (the
  configurable platforms and the setup service, lines 95 and 96) touch neither the
  counter nor the flag and are left out.
\<close>

definition load :: "plugins \<Rightarrow> server \<Rightarrow> server outcome" where
  "load p s =
     (let s1 = s\<lparr>asyncCalls := 0, asyncWait := True\<rparr>;
          s2 = loadPlatforms (platforms p) s1;
          s3 = loadAccessories (accessories p) s2;
          s4 = loadDynamicPlatforms (dynamicPlatforms p) s3
      in configCachedPlatformAccessories s4)"

text \<open>
  \<^verbatim>\<open>run\<close> (lines 81 to 107): after the loading pass the flag is set to false, the
  bridge is published if the counter is 0, and the launch is announced. An exception
  in the loading pass leaves \<^verbatim>\<open>run\<close> there, the flag still true.
\<close>

definition run :: "plugins \<Rightarrow> server \<Rightarrow> server outcome" where
  "run p s =
     (case load p s of
        Threw e s5 \<Rightarrow> Threw e s5
      | Returned s5 \<Rightarrow>
          (let s6 = s5\<lparr>asyncWait := False\<rparr>;
               s7 = (if asyncCalls s6 = 0 then publish s6 else s6)
           in Returned (emit [ApiEmit ''didFinishLaunching'', ProcessSend ''api_launched'' []] s7)))"

text \<open>
  After \<^verbatim>\<open>run\<close>, a plugin calls a callback it kept. A call that throws leaves the
  server's state as it was.
\<close>

definition deliver :: "server \<Rightarrow> nat \<times> string list \<Rightarrow> server" where
  "deliver s c = (case callOnce (fst c) (snd c) s of Inl e \<Rightarrow> s | Inr s' \<Rightarrow> s')"

text \<open>The callbacks that the plugins keep: wrapped by \<^verbatim>\<open>once\<close> and not called yet.\<close>

definition pending :: "server \<Rightarrow> nat list" where
  "pending s = filter (\<lambda>k. \<not> onceCalled s ! k) [0..<length (onceCalled s)]"

definition is_publish :: "effect \<Rightarrow> bool" where
  "is_publish e = (e = BridgePublish)"

text \<open>How often the bridge has been published.\<close>

definition publishes :: "server \<Rightarrow> nat" where
  "publishes s = length (filter is_publish (effects s))"

section \<open>Shutting down\<close>

definition updateCachedAccessories :: "server \<Rightarrow> server" where
  "updateCachedAccessories s = emit [PersistSetItem (cachedPlatformAccessories s)] s"

text \<open>
  \<^verbatim>\<open>teardown\<close>: the cache is persisted, the bridge unpublished, and every published
  external accessory unpublished, in the order of \<^verbatim>\<open>Object.keys\<close> (insertion order).
\<close>

definition teardown :: "server \<Rightarrow> server" where
  "teardown s =
     emit (map (\<lambda>advertiseAddress. AccessoryUnpublish advertiseAddress)
             (map fst (publishedAccessories s)))
       (emit [BridgeUnpublish] (updateCachedAccessories s))"

text \<open>
  The process of the command-line module: its \<^verbatim>\<open>terminating\<close> flag and its server.
  The handler is the same function for both signals.
\<close>

datatype signal = SIGINT | SIGTERM

fun signal_name :: "signal \<Rightarrow> string" where
  "signal_name SIGINT = ''SIGINT''"
| "signal_name SIGTERM = ''SIGTERM''"

fun signal_number :: "signal \<Rightarrow> int" where
  "signal_number SIGINT = 2"
| "signal_number SIGTERM = 15"

record process =
  terminating :: bool
  the_server :: server

text \<open>
  The signal handler (lines 91 to 107 of the command-line module). The timer it sets
  reports \<^verbatim>\<open>shutdown\<close> to the parent and exits with \<^verbatim>\<open>128 + signals[signal]\<close> after
  3000 milliseconds.
\<close>

definition on_signal :: "process \<Rightarrow> signal \<Rightarrow> process" where
  "on_signal p signal =
     (if terminating p then p
      else
        p\<lparr>terminating := True,
          the_server :=
            emit [ApiEmit ''shutdown'', SetTimeout 3000 (128 + signal_number signal)]
              (teardown
                 (emit [InternalInfo (''Got '' @ signal_name signal @ '', shutting down Bridge...'')]
                    (the_server p)))\<rparr>)"

definition is_persist :: "effect \<Rightarrow> bool" where
  "is_persist e = (case e of PersistSetItem c \<Rightarrow> True | _ \<Rightarrow> False)"

section \<open>New configuration from the setup manager\<close>

text \<open>\<^verbatim>\<open>list.push(x)\<close>: only an array has \<^verbatim>\<open>push\<close>; calling what is not a function throws.\<close>

fun push :: "jsval \<Rightarrow> jsval \<Rightarrow> error + jsval" where
  "push (JArr xs ps) x = Inr (JArr (xs @ [x]) ps)"
| "push v x = Inl TypeError"

text \<open>
  \<^verbatim>\<open>targetName\<close> (lines 565 to 569): for a name with a dot, what
  \<^verbatim>\<open>name.split(".")[1]\<close> is, the part between the first dot and the second;
  \<^verbatim>\<open>undefined\<close> for a name without a dot.
\<close>

definition targetName_of :: "string \<Rightarrow> string option" where
  "targetName_of name = (if CHR ''.'' \<in> set name then second_part name else None)"

text \<open>
  The comparisons of one turn of the loop (lines 574 and 582): the entry's
  \<^verbatim>\<open>accessory\<close> (or \<^verbatim>\<open>platform\<close>) property is the name, or \<^verbatim>\<open>targetName\<close> is truthy
  and the property is \<^verbatim>\<open>targetName\<close>. Reading the property of a \<^verbatim>\<open>null\<close> entry throws.
\<close>

definition entry_matches :: "string \<Rightarrow> string \<Rightarrow> string option \<Rightarrow> jsval \<Rightarrow> error + bool" where
  "entry_matches key name targetName entry =
     (case get_prop entry key of
        Inl e \<Rightarrow> Inl e
      | Inr v \<Rightarrow>
          Inr (v = JStr name
               \<or> (case targetName of None \<Rightarrow> False | Some t \<Rightarrow> t \<noteq> [] \<and> v = JStr t)))"

text \<open>An entry that one turn of the loop overwrites.\<close>

definition matches :: "string \<Rightarrow> string \<Rightarrow> jsval \<Rightarrow> bool" where
  "matches key name entry = (entry_matches key name (targetName_of name) entry = Inr True)"

text \<open>The loop up to its \<^verbatim>\<open>break\<close>: the position of the first entry that matches.\<close>

fun find_entry :: "string \<Rightarrow> string \<Rightarrow> string option \<Rightarrow> jsval list \<Rightarrow> error + nat option" where
  "find_entry key name targetName [] = Inr None"
| "find_entry key name targetName (entry # rest) =
     (case entry_matches key name targetName entry of
        Inl e \<Rightarrow> Inl e
      | Inr True \<Rightarrow> Inr (Some 0)
      | Inr False \<Rightarrow>
          (case find_entry key name targetName rest of
             Inl e \<Rightarrow> Inl e
           | Inr None \<Rightarrow> Inr None
           | Inr (Some i) \<Rightarrow> Inr (Some (Suc i))))"

text \<open>
  The order in which \<^verbatim>\<open>for ... in\<close> visits the properties of an object: the keys that
  are array indices in ascending order, then the others in insertion order.
\<close>

definition is_digit :: "char \<Rightarrow> bool" where
  "is_digit c = (c \<in> set ''0123456789'')"

definition decimal :: "string \<Rightarrow> nat" where
  "decimal s = foldl (\<lambda>n c. 10 * n + (of_char c - 48)) 0 s"

definition array_index :: "string \<Rightarrow> bool" where
  "array_index k =
     (k \<noteq> [] \<and> list_all is_digit k \<and> (k = ''0'' \<or> hd k \<noteq> CHR ''0'') \<and> decimal k < 4294967295)"

definition for_in_order :: "(string \<times> jsval) list \<Rightarrow> (string \<times> jsval) list" where
  "for_in_order kvs =
     sort_key (\<lambda>p. decimal (fst p)) (filter (\<lambda>p. array_index (fst p)) kvs)
     @ filter (\<lambda>p. \<not> array_index (fst p)) kvs"

text \<open>
  The branch \<^verbatim>\<open>replace\<close> of \<^verbatim>\<open>handleNewConfig\<close> on the list (lines 565 to 593): the
  first entry that matches is overwritten, and without one the configuration is pushed.
  On an array the loop visits the elements, then the named properties; on an object its
  properties; on a string its characters, which have no such property; a number and
  \<^verbatim>\<open>true\<close> have nothing to visit.
\<close>

fun replace_entry :: "string \<Rightarrow> string \<Rightarrow> string option \<Rightarrow> jsval \<Rightarrow> jsval \<Rightarrow> error + jsval" where
  "replace_entry key name targetName (JArr xs ps) x =
     (case find_entry key name targetName (xs @ map snd ps) of
        Inl e \<Rightarrow> Inl e
      | Inr (Some i) \<Rightarrow>
          if i < length xs then Inr (JArr (xs[i := x]) ps)
          else Inr (JArr xs (ps[i - length xs := (fst (ps ! (i - length xs)), x)]))
      | Inr None \<Rightarrow> push (JArr xs ps) x)"
| "replace_entry key name targetName (JObj kvs) x =
     (case find_entry key name targetName (map snd (for_in_order kvs)) of
        Inl e \<Rightarrow> Inl e
      | Inr (Some i) \<Rightarrow> Inr (JObj (put (fst (for_in_order kvs ! i)) x kvs))
      | Inr None \<Rightarrow> push (JObj kvs) x)"
| "replace_entry key name targetName v x = push v x"

text \<open>
  One branch of \<^verbatim>\<open>handleNewConfig\<close> (lines 558 to 594 for the accessories, 596 to 632
  for the platforms, which differ in the two names only): the new value of
  \<^verbatim>\<open>this.config\<close>. \<open>name = None\<close> is a name that is \<^verbatim>\<open>undefined\<close>, on which
  \<^verbatim>\<open>indexOf\<close> throws.
\<close>

definition apply_config ::
  "string \<Rightarrow> string \<Rightarrow> string option \<Rightarrow> bool \<Rightarrow> jsval \<Rightarrow> jsval \<Rightarrow> error + jsval" where
  "apply_config list_key key name replace x cfg =
     (case get_prop cfg list_key of
        Inl e \<Rightarrow> Inl e
      | Inr l0 \<Rightarrow>
          (case (if \<not> truthy l0 then set_prop cfg list_key (JArr [] []) else Inr cfg) of
             Inl e \<Rightarrow> Inl e
           | Inr cfg1 \<Rightarrow>
               (case get_prop cfg1 list_key of
                  Inl e \<Rightarrow> Inl e
                | Inr l \<Rightarrow>
                    (case (if \<not> replace then push l x
                           else (case name of
                                   None \<Rightarrow> Inl TypeError
                                 | Some n \<Rightarrow> replace_entry key n (targetName_of n) l x)) of
                       Inl e \<Rightarrow> Inl e
                     | Inr l' \<Rightarrow> set_prop cfg1 list_key l'))))"

text \<open>
  \<^verbatim>\<open>handleNewConfig(type, name, replace, config)\<close>; an argument that is not passed is
  \<^verbatim>\<open>undefined\<close>: \<open>None\<close> for the type and the name, false for \<^verbatim>\<open>replace\<close>. The
  file is written with the whole configuration; an exception before leaves it unwritten
  (what it leaves of the configuration in memory is not part of the result).
\<close>

definition handleNewConfig ::
  "string option \<Rightarrow> string option \<Rightarrow> bool \<Rightarrow> jsval \<Rightarrow> server \<Rightarrow> error + server" where
  "handleNewConfig type name replace x s =
     (case (if type = Some ''accessory'' then
              apply_config ''accessories'' ''accessory'' name replace x (config s)
            else if type = Some ''platform'' then
              apply_config ''platforms'' ''platform'' name replace x (config s)
            else Inr (config s)) of
        Inl e \<Rightarrow> Inl e
      | Inr cfg \<Rightarrow> Inr (emit [WriteFile cfg] (s\<lparr>config := cfg\<rparr>)))"

text \<open>The listener of the setup manager's \<^verbatim>\<open>newConfig\<close> event (lines 72 to 74).\<close>

definition newConfig_listener :: "server \<Rightarrow> error + server" where
  "newConfig_listener s = handleNewConfig None None False JUndefined s"

text \<open>The position of the first element with a property.\<close>

definition first_index :: "('a \<Rightarrow> bool) \<Rightarrow> 'a list \<Rightarrow> nat option" where
  "first_index P xs = (if list_ex P xs then Some (length (takeWhile (\<lambda>x. \<not> P x) xs)) else None)"

text \<open>
  The replacement as the specification words it, to compare with: an entry with exactly
  the name first, otherwise an entry with the suffix, otherwise appended.
\<close>

definition has_name :: "string \<Rightarrow> string \<Rightarrow> jsval \<Rightarrow> bool" where
  "has_name key name entry = (get_prop entry key = Inr (JStr name))"

definition spec_replace :: "string \<Rightarrow> string \<Rightarrow> string option \<Rightarrow> jsval list \<Rightarrow> jsval \<Rightarrow> jsval list" where
  "spec_replace key name suffix xs x =
     (case first_index (has_name key name) xs of
        Some i \<Rightarrow> xs[i := x]
      | None \<Rightarrow>
          (case (case suffix of None \<Rightarrow> None | Some t \<Rightarrow> first_index (has_name key t) xs) of
             Some i \<Rightarrow> xs[i := x]
           | None \<Rightarrow> xs @ [x]))"

section \<open>Properties of loading the configuration\<close>

lemma map_of_put: "map_of (put k v kvs) k = Some v"
  by (induction kvs) auto

lemma get_prop_set_prop:
  assumes "set_prop c k x = Inr c'" and "k \<noteq> ''length''"
  shows "get_prop c' k = Inr x"
  using assms by (cases c) (auto simp: map_of_put)

lemma set_prop_of_holder:
  assumes "get_prop c k = Inr v" and "v \<noteq> JUndefined" and "k \<noteq> ''length''"
  shows "\<exists>c'. set_prop c k x = Inr c'"
  using assms by (cases c) auto

text \<open>
  Claim C7, as the code has it. For a document that passes the check of the port pool,
  whose \<^verbatim>\<open>bridge\<close> is an object and whose username has a text (its conversion to a
  string does not throw), the username is kept when that text matches the pattern of six
  pairs of digits and capital letters A to F (the test is case-sensitive), and is
  replaced by the default username otherwise; the configuration is returned in both
  cases.
\<close>

theorem loadConfig_username:
  assumes ports: "check_ports eng doc = Inr doc'"
    and bridge: "get_prop doc' ''bridge'' = Inr (JObj b)"
    and user: "get_prop (JObj b) ''username'' = Inr u"
    and conv: "toString eng u = Inr str"
  shows "\<exists>cfg b'. loadConfig eng (Parsed doc) = Inr cfg
           \<and> get_prop cfg ''bridge'' = Inr (JObj b')
           \<and> get_prop (JObj b') ''username''
               = Inr (if username_regex_test str then u else JStr default_username)"
proof (cases "username_regex_test str")
  case True
  then have "loadConfig eng (Parsed doc) = Inr doc'"
    using ports bridge user conv by (simp add: loadConfig_def check_username_def)
  then show ?thesis using bridge user True by auto
next
  case False
  obtain cfg where cfg: "set_prop doc' ''bridge'' (JObj (put ''username'' (JStr default_username) b)) = Inr cfg"
    using set_prop_of_holder [OF bridge] by auto
  have "loadConfig eng (Parsed doc) = Inr cfg"
    using ports bridge user conv False cfg by (simp add: loadConfig_def check_username_def)
  moreover have "get_prop cfg ''bridge'' = Inr (JObj (put ''username'' (JStr default_username) b))"
    using get_prop_set_prop [OF cfg] by simp
  ultimately show ?thesis using False by (simp add: map_of_put)
qed

theorem loadConfig_username_witness:
  "\<exists>cfg b'. loadConfig \<lparr>primitive_gt = (\<lambda>a b. False), exponent_text = (\<lambda>n. [])\<rparr>
        (Parsed (JObj [(''bridge'', JObj [(''username'', JStr ''0E:3A:5B:7C:9D:1F'')])])) = Inr cfg
           \<and> get_prop cfg ''bridge'' = Inr (JObj b')
           \<and> get_prop (JObj b') ''username'' = Inr (JStr ''0E:3A:5B:7C:9D:1F'')"
proof -
  let ?eng = "\<lparr>primitive_gt = (\<lambda>a b. False), exponent_text = (\<lambda>n. [])\<rparr>"
  let ?b = "[(''username'', JStr ''0E:3A:5B:7C:9D:1F'')]"
  let ?doc = "JObj [(''bridge'', JObj ?b)]"
  have ports: "check_ports ?eng ?doc = Inr ?doc" by code_simp
  have bridge: "get_prop ?doc ''bridge'' = Inr (JObj ?b)" by code_simp
  have user: "get_prop (JObj ?b) ''username'' = Inr (JStr ''0E:3A:5B:7C:9D:1F'')" by code_simp
  have conv: "toString ?eng (JStr ''0E:3A:5B:7C:9D:1F'') = Inr ''0E:3A:5B:7C:9D:1F''" by simp
  have ok: "username_regex_test ''0E:3A:5B:7C:9D:1F''" by code_simp
  show ?thesis using loadConfig_username [OF ports bridge user conv] by (simp only: ok if_True)
qed

text \<open>
  A username in lowercase hexadecimal matches the pattern once in capitals, and is
  replaced by the default username all the same.
\<close>

theorem lowercase_username_counterexample:
  "username_regex_test (toUpperCase ''0e:3a:5b:7c:9d:1f'')
   \<and> loadConfig \<lparr>primitive_gt = (\<lambda>a b. False), exponent_text = (\<lambda>n. [])\<rparr>
        (Parsed (JObj [(''bridge'', JObj [(''name'', JStr ''HOOBS''),
                                          (''username'', JStr ''0e:3a:5b:7c:9d:1f''),
                                          (''pin'', JStr ''031-45-154'')])]))
     = Inr (JObj [(''bridge'', JObj [(''name'', JStr ''HOOBS''),
                                     (''username'', JStr ''CC:22:3D:E3:CE:30''),
                                     (''pin'', JStr ''031-45-154'')])])"
  by code_simp

text \<open>
  A username or a bound of the pool that has no text, an object with a property
  \<^verbatim>\<open>toString\<close> of its own, makes \<^verbatim>\<open>loadConfig\<close> throw.
\<close>

lemma loadConfig_unconvertible_throws:
  "loadConfig eng (Parsed (JObj [(''bridge'', JObj [(''username'', JObj [(''toString'', JNum 0)])])]))
     = Inl TypeError"
  "loadConfig eng (Parsed (JObj [(''ports'', JObj [(''start'', JObj [(''toString'', JNum 0)]),
                                                   (''end'', JNum 9)]),
                                 (''bridge'', JObj [(''username'', JStr ''0E:3A:5B:7C:9D:1F'')])]))
     = Inl TypeError"
  by (simp_all add: loadConfig_def check_ports_def check_username_def js_gt_def to_primitive_def)

text \<open>
  Claim C8 at a document without \<^verbatim>\<open>bridge\<close>: reading \<^verbatim>\<open>config.bridge.username\<close>
  throws a TypeError, where the claim has \<^verbatim>\<open>loadConfig\<close> return a configuration
  with defaults.
\<close>

theorem loadConfig_missing_bridge_throws:
  "loadConfig eng (Parsed (JObj [(''accessories'', JArr [] []), (''platforms'', JArr [] [])]))
     = Inl TypeError"
  by (simp add: loadConfig_def check_ports_def check_username_def)

text \<open>A missing and an unparsable file give the default configuration.\<close>

lemma loadConfig_recovers_file: "loadConfig eng Missing = Inr default_config"
  "loadConfig eng Unparsable = Inr default_config"
  by (simp_all add: loadConfig_def)

text \<open>A pool of two numbers with the start above the end is removed from the configuration.\<close>

lemma check_ports_invalid_pool:
  assumes "get_prop doc ''ports'' = Inr (JObj [(''start'', JNum a), (''end'', JNum b)])" and "b < a"
  shows "\<exists>cfg. check_ports eng doc = Inr cfg \<and> get_prop cfg ''ports'' = Inr JUndefined"
proof -
  obtain cfg where cfg: "set_prop doc ''ports'' JUndefined = Inr cfg"
    using set_prop_of_holder [OF assms(1)] by auto
  then have "check_ports eng doc = Inr cfg"
    using assms by (simp add: check_ports_def js_gt_def to_primitive_def)
  then show ?thesis using get_prop_set_prop [OF cfg] by simp
qed

section \<open>Properties of the port allocation\<close>

lemma js_plus1_exact:
  assumes "- (2 ^ 53) \<le> n" and "n < 2 ^ 53"
  shows "js_plus1 n = n + 1"
proof -
  have "\<bar>n + 1\<bar> \<le> 2 ^ 53" using assms by simp
  then show ?thesis by (simp add: js_plus1_def round_double_def)
qed

lemma allocatePort_pool [simp]: "externalPorts (snd (allocatePort s)) = externalPorts s"
  by (simp add: allocatePort_def emit_def split: option.splits)

lemma publishExternalAccessory_pool [simp]:
  "externalPorts (publishExternalAccessory sha s a) = externalPorts s"
proof -
  obtain port s1 where a: "allocatePort s = (port, s1)" by (cases "allocatePort s")
  then have "externalPorts s1 = externalPorts s" using allocatePort_pool [of s] by simp
  then show ?thesis using a by (simp add: publishExternalAccessory_def emit_def Let_def)
qed

lemma publishExternalAccessory_next [simp]:
  "nextExternalPort (publishExternalAccessory sha s a) = nextExternalPort (snd (allocatePort s))"
proof -
  obtain port s1 where a: "allocatePort s = (port, s1)" by (cases "allocatePort s")
  then show ?thesis by (simp add: publishExternalAccessory_def emit_def Let_def)
qed

lemma allocatePort_started:
  assumes "externalPorts s = Some pool" and "nextExternalPort s = Some n"
  shows "fst (allocatePort s) = (if n \<le> pool_end pool then n else 0)"
    and "nextExternalPort (snd (allocatePort s)) = Some (if n \<le> pool_end pool then js_plus1 n else n)"
  using assms by (auto simp: allocatePort_def emit_def)

lemma allocatePort_first:
  assumes "externalPorts s = Some pool" and "nextExternalPort s = None"
  shows "fst (allocatePort s) = pool_start pool"
    and "nextExternalPort (snd (allocatePort s)) = Some (js_plus1 (pool_start pool))"
  using assms by (auto simp: allocatePort_def emit_def)

lemma accessoryPorts_started:
  assumes "externalPorts s = Some pool" and "nextExternalPort s = Some n"
    and "- (2 ^ 53) \<le> n" and "pool_end pool < 2 ^ 53"
  shows "accessoryPorts sha s as
         = map (\<lambda>i. if n + int i \<le> pool_end pool then n + int i else 0) [0..<length as]"
  using assms
proof (induction as arbitrary: s n)
  case Nil
  then show ?case by simp
next
  case (Cons a as)
  let ?s' = "publishExternalAccessory sha s a"
  let ?n' = "if n \<le> pool_end pool then n + 1 else n"
  have exact: "js_plus1 n = n + 1" if "n \<le> pool_end pool"
    using that Cons.prems(3,4) by (intro js_plus1_exact) simp_all
  have pool: "externalPorts ?s' = Some pool" using Cons.prems by simp
  have nxt: "nextExternalPort ?s' = Some ?n'"
    using allocatePort_started(2) [OF Cons.prems(1,2)] exact by simp
  have low: "- (2 ^ 53) \<le> ?n'" using Cons.prems(3) by simp
  have rest: "accessoryPorts sha ?s' as
         = map (\<lambda>i. if ?n' + int i \<le> pool_end pool then ?n' + int i else 0) [0..<length as]"
    by (rule Cons.IH [OF pool nxt low Cons.prems(4)])
  have shift: "map (\<lambda>i. if ?n' + int i \<le> pool_end pool then ?n' + int i else 0) [0..<length as]
        = map (\<lambda>i. if n + int i \<le> pool_end pool then n + int i else 0) [Suc 0..<Suc (length as)]"
    unfolding map_Suc_upt [symmetric] map_map by (rule map_cong) (auto simp: o_def)
  have "accessoryPorts sha s (a # as)
        = (if n \<le> pool_end pool then n else 0) # accessoryPorts sha ?s' as"
    using allocatePort_started(1) [OF Cons.prems(1,2)] by simp
  also have "\<dots> = map (\<lambda>i. if n + int i \<le> pool_end pool then n + int i else 0) (0 # [Suc 0..<Suc (length as)])"
    using rest shift by simp
  also have "0 # [Suc 0..<Suc (length as)] = [0..<length (a # as)]"
    by (simp add: upt_rec)
  finally show ?case .
qed

lemma accessoryPorts_fresh:
  assumes pool: "externalPorts s = Some \<lparr>pool_start = S, pool_end = E\<rparr>"
    and fresh: "nextExternalPort s = None" and le: "S \<le> E"
    and low: "- (2 ^ 53) \<le> S" and high: "E < 2 ^ 53"
  shows "accessoryPorts sha s as = map (\<lambda>i. if int i < E - S + 1 then S + int i else 0) [0..<length as]"
proof (cases as)
  case Nil
  then show ?thesis by simp
next
  case (Cons a rest)
  let ?s' = "publishExternalAccessory sha s a"
  have exact: "js_plus1 S = S + 1"
    using low le high by (intro js_plus1_exact) simp_all
  have "externalPorts ?s' = Some \<lparr>pool_start = S, pool_end = E\<rparr>" using pool by simp
  moreover have "nextExternalPort ?s' = Some (S + 1)"
    using allocatePort_first(2) [OF pool fresh] exact by simp
  moreover have "- (2 ^ 53) \<le> S + 1" using low by simp
  ultimately have "accessoryPorts sha ?s' rest
      = map (\<lambda>i. if S + 1 + int i \<le> E then S + 1 + int i else 0) [0..<length rest]"
    using accessoryPorts_started [of ?s' "\<lparr>pool_start = S, pool_end = E\<rparr>" "S + 1" sha rest] high by simp
  also have "\<dots> = map (\<lambda>i. if int i < E - S + 1 then S + int i else 0) [Suc 0..<Suc (length rest)]"
    unfolding map_Suc_upt [symmetric] map_map by (rule map_cong) (auto simp: o_def)
  finally have "accessoryPorts sha s as
      = map (\<lambda>i. if int i < E - S + 1 then S + int i else 0) (0 # [Suc 0..<Suc (length rest)])"
    using Cons allocatePort_first(1) [OF pool fresh] le by simp
  also have "0 # [Suc 0..<Suc (length rest)] = [0..<length as]"
    using Cons by (simp add: upt_rec)
  finally show ?thesis .
qed

lemma published_ports_append:
  "published_ports (es @ fs) = published_ports es @ published_ports fs"
  by (induction es rule: published_ports.induct) simp_all

lemma allocatePort_frame:
  "publishedAccessories (snd (allocatePort s)) = publishedAccessories s"
  "published_ports (effects (snd (allocatePort s))) = published_ports (effects s)"
  by (auto simp: allocatePort_def emit_def published_ports_append split: option.splits)

lemma table_get_append_absent:
  "table_get (table @ [(k, v)]) k' = Absent \<longleftrightarrow> table_get table k' = Absent \<and> k' \<noteq> k"
  by (auto simp: table_get_def map_add_def split: option.splits if_splits)

lemma publishExternalAccessory_fresh:
  assumes "table_get (publishedAccessories s) (generateAddress sha1_hex (UUID a)) = Absent"
  shows "published_ports (effects (publishExternalAccessory sha1_hex s a))
         = published_ports (effects s) @ [fst (allocatePort s)]"
    and "publishedAccessories (publishExternalAccessory sha1_hex s a)
         = publishedAccessories s @ [(generateAddress sha1_hex (UUID a), a)]"
proof -
  obtain port s1 where alloc: "allocatePort s = (port, s1)" by (cases "allocatePort s")
  have frame: "publishedAccessories s1 = publishedAccessories s"
    "published_ports (effects s1) = published_ports (effects s)"
    using allocatePort_frame [of s] alloc by simp_all
  have step: "publishExternalAccessory sha1_hex s a
      = emit [AccessoryPublish (generateAddress sha1_hex (UUID a)) port]
          (s1\<lparr>publishedAccessories :=
               publishedAccessories s1 @ [(generateAddress sha1_hex (UUID a), a)]\<rparr>)"
    using alloc assms frame(1) by (simp add: publishExternalAccessory_def Let_def)
  show "published_ports (effects (publishExternalAccessory sha1_hex s a))
         = published_ports (effects s) @ [fst (allocatePort s)]"
    unfolding step using frame(2) alloc by (simp add: emit_def published_ports_append)
  show "publishedAccessories (publishExternalAccessory sha1_hex s a)
         = publishedAccessories s @ [(generateAddress sha1_hex (UUID a), a)]"
    unfolding step using frame(1) by (simp add: emit_def)
qed

lemma published_ports_without_collision:
  assumes "distinct (map (\<lambda>a. generateAddress sha1_hex (UUID a)) as)"
    and "list_all (\<lambda>a. table_get (publishedAccessories s) (generateAddress sha1_hex (UUID a)) = Absent) as"
  shows "published_ports (effects (handlePublishExternalAccessories sha1_hex s as))
         = published_ports (effects s) @ accessoryPorts sha1_hex s as"
  using assms unfolding handlePublishExternalAccessories_def
proof (induction as arbitrary: s)
  case Nil
  then show ?case by simp
next
  case (Cons a as)
  let ?s' = "publishExternalAccessory sha1_hex s a"
  have fresh: "table_get (publishedAccessories s) (generateAddress sha1_hex (UUID a)) = Absent"
    using Cons.prems(2) by simp
  have ports: "published_ports (effects ?s') = published_ports (effects s) @ [fst (allocatePort s)]"
    and pub: "publishedAccessories ?s' = publishedAccessories s @ [(generateAddress sha1_hex (UUID a), a)]"
    using publishExternalAccessory_fresh [OF fresh] by simp_all
  have "table_get (publishedAccessories ?s') (generateAddress sha1_hex (UUID b)) = Absent"
    if "b \<in> set as" for b
  proof -
    have "generateAddress sha1_hex (UUID b) \<noteq> generateAddress sha1_hex (UUID a)"
      using Cons.prems(1) that by (auto simp: image_iff)
    moreover have "table_get (publishedAccessories s) (generateAddress sha1_hex (UUID b)) = Absent"
      using Cons.prems(2) that by (simp add: list_all_iff)
    ultimately show ?thesis unfolding pub by (simp add: table_get_append_absent)
  qed
  then have rest: "list_all (\<lambda>b. table_get (publishedAccessories ?s') (generateAddress sha1_hex (UUID b)) = Absent) as"
    by (simp add: list_all_iff)
  have "distinct (map (\<lambda>a. generateAddress sha1_hex (UUID a)) as)"
    using Cons.prems(1) by simp
  from this rest have "published_ports (effects (foldl (publishExternalAccessory sha1_hex) ?s' as))
         = published_ports (effects ?s') @ accessoryPorts sha1_hex ?s' as"
    by (rule Cons.IH)
  then show ?case using ports by simp
qed

text \<open>
  Claim C2. With a pool of whole numbers from \<open>S\<close> to \<open>E\<close> (\<^verbatim>\<open>loadConfig\<close> removes a
  pool with \<open>S > E\<close>) that a double holds exactly, \<open>- 2\<^sup>5\<^sup>3 \<le> S\<close> and \<open>E < 2\<^sup>5\<^sup>3\<close>, and no port
  given out yet, the requests are given the ports \<open>S, S + 1, \<dots>\<close> in order while they
  last, that is to the first \<open>E - S + 1\<close> requests, and port 0 after that; the ports
  from the pool are pairwise distinct; and where no request is rejected for its
  address, these are the ports the accessories are published with.
\<close>

theorem external_ports_follow_pool:
  assumes pool: "externalPorts s = Some \<lparr>pool_start = S, pool_end = E\<rparr>"
    and fresh: "nextExternalPort s = None" and le: "S \<le> E"
    and low: "- (2 ^ 53) \<le> S" and high: "E < 2 ^ 53"
  shows "accessoryPorts sha1_hex s as
           = map (\<lambda>i. if int i < E - S + 1 then S + int i else 0) [0..<length as]
         \<and> distinct (take (nat (E - S + 1)) (accessoryPorts sha1_hex s as))
         \<and> (distinct (map (\<lambda>a. generateAddress sha1_hex (UUID a)) as)
              \<and> list_all (\<lambda>a. table_get (publishedAccessories s) (generateAddress sha1_hex (UUID a)) = Absent) as
            \<longrightarrow> published_ports (effects (handlePublishExternalAccessories sha1_hex s as))
                = published_ports (effects s)
                  @ map (\<lambda>i. if int i < E - S + 1 then S + int i else 0) [0..<length as])"
proof -
  let ?f = "\<lambda>i. if int i < E - S + 1 then S + int i else 0"
  let ?k = "nat (E - S + 1)"
  have ports: "accessoryPorts sha1_hex s as = map ?f [0..<length as]"
    by (rule accessoryPorts_fresh [OF pool fresh le low high])
  have upt: "take ?k [0..<length as] = [0..<min (length as) ?k]"
    by (cases "?k \<le> length as") (simp_all add: min_def)
  have "take ?k (accessoryPorts sha1_hex s as) = take ?k (map ?f [0..<length as])"
    by (simp only: ports)
  also have "\<dots> = map ?f [0..<min (length as) ?k]"
    by (simp only: take_map upt)
  also have "\<dots> = map (\<lambda>i. S + int i) [0..<min (length as) ?k]"
    by (rule map_cong) auto
  finally have pool_ports: "take ?k (accessoryPorts sha1_hex s as)
        = map (\<lambda>i. S + int i) [0..<min (length as) ?k]" .
  have "distinct (map (\<lambda>i. S + int i) [0..<min (length as) ?k])"
    by (simp add: distinct_map inj_on_def)
  then have different: "distinct (take ?k (accessoryPorts sha1_hex s as))"
    by (simp only: pool_ports)
  have "published_ports (effects (handlePublishExternalAccessories sha1_hex s as))
                = published_ports (effects s) @ map ?f [0..<length as]"
    if "distinct (map (\<lambda>a. generateAddress sha1_hex (UUID a)) as)"
      and "list_all (\<lambda>a. table_get (publishedAccessories s) (generateAddress sha1_hex (UUID a)) = Absent) as"
    using published_ports_without_collision [OF that] by (simp only: ports)
  with ports different show ?thesis by blast
qed

theorem external_ports_follow_pool_witness:
  "(8000::int) \<le> 8002 \<and> - (2 ^ 53) \<le> (8000::int) \<and> (8002::int) < 2 ^ 53
   \<and> accessoryPorts (\<lambda>d. d)
        (new_server default_config (Some \<lparr>pool_start = 8000, pool_end = 8002\<rparr>) [] False)
        [\<lparr>displayName = ''Camera'', UUID = ''0a'', associatedPlugin = None, associatedPlatform = None\<rparr>,
         \<lparr>displayName = ''TV'', UUID = ''0b'', associatedPlugin = None, associatedPlatform = None\<rparr>,
         \<lparr>displayName = ''Speaker'', UUID = ''0c'', associatedPlugin = None, associatedPlatform = None\<rparr>,
         \<lparr>displayName = ''Doorbell'', UUID = ''0d'', associatedPlugin = None, associatedPlatform = None\<rparr>,
         \<lparr>displayName = ''Console'', UUID = ''0e'', associatedPlugin = None, associatedPlatform = None\<rparr>]
      = [8000, 8001, 8002, 0, 0]
   \<and> published_ports (effects (handlePublishExternalAccessories (\<lambda>d. d)
        (new_server default_config (Some \<lparr>pool_start = 8000, pool_end = 8002\<rparr>) [] False)
        [\<lparr>displayName = ''Camera'', UUID = ''0a'', associatedPlugin = None, associatedPlatform = None\<rparr>,
         \<lparr>displayName = ''TV'', UUID = ''0b'', associatedPlugin = None, associatedPlatform = None\<rparr>,
         \<lparr>displayName = ''Speaker'', UUID = ''0c'', associatedPlugin = None, associatedPlatform = None\<rparr>,
         \<lparr>displayName = ''Doorbell'', UUID = ''0d'', associatedPlugin = None, associatedPlatform = None\<rparr>,
         \<lparr>displayName = ''Console'', UUID = ''0e'', associatedPlugin = None, associatedPlatform = None\<rparr>]))
      = [8000, 8001, 8002, 0, 0]"
proof -
  let ?s = "new_server default_config (Some \<lparr>pool_start = 8000, pool_end = 8002\<rparr>) [] False"
  let ?as = "[\<lparr>displayName = ''Camera'', UUID = ''0a'', associatedPlugin = None, associatedPlatform = None\<rparr>,
         \<lparr>displayName = ''TV'', UUID = ''0b'', associatedPlugin = None, associatedPlatform = None\<rparr>,
         \<lparr>displayName = ''Speaker'', UUID = ''0c'', associatedPlugin = None, associatedPlatform = None\<rparr>,
         \<lparr>displayName = ''Doorbell'', UUID = ''0d'', associatedPlugin = None, associatedPlatform = None\<rparr>,
         \<lparr>displayName = ''Console'', UUID = ''0e'', associatedPlugin = None, associatedPlatform = None\<rparr>]"
  have pool: "externalPorts ?s = Some \<lparr>pool_start = 8000, pool_end = 8002\<rparr>"
    by (simp add: new_server_def)
  have fresh: "nextExternalPort ?s = None"
    by (simp add: new_server_def)
  have le: "(8000::int) \<le> 8002" by simp
  have low: "- (2 ^ 53) \<le> (8000::int)" by simp
  have high: "(8002::int) < 2 ^ 53" by simp
  have different: "distinct (map (\<lambda>a. generateAddress (\<lambda>d. d) (UUID a)) ?as)"
    by code_simp
  have unpublished: "list_all (\<lambda>a. table_get (publishedAccessories ?s) (generateAddress (\<lambda>d. d) (UUID a)) = Absent) ?as"
    by code_simp
  have none: "published_ports (effects ?s) = []"
    by (simp add: new_server_def)
  have ports: "map (\<lambda>i. if int i < 8002 - 8000 + 1 then 8000 + int i else 0) [0..<length ?as]
      = [8000, 8001, 8002, 0, 0]"
    by (simp add: upt_rec)
  have all: "accessoryPorts (\<lambda>d. d) ?s ?as = [8000, 8001, 8002, 0, 0]
      \<and> published_ports (effects (handlePublishExternalAccessories (\<lambda>d. d) ?s ?as)) = [8000, 8001, 8002, 0, 0]"
    using external_ports_follow_pool [OF pool fresh le low high, of "\<lambda>d. d" ?as] different unpublished
    unfolding ports none by simp
  with le low high show ?thesis by blast
qed

text \<open>
  Beyond \<open>2\<^sup>5\<^sup>3\<close> the addition of line 488 does not advance: with the pool from \<open>2\<^sup>5\<^sup>3\<close> to
  \<open>2\<^sup>5\<^sup>3 + 2\<close>, which \<^verbatim>\<open>loadConfig\<close> keeps, three requests are all given the port \<open>2\<^sup>5\<^sup>3\<close>,
  where the pool has three ports.
\<close>

theorem external_ports_repeat_counterexample:
  "accessoryPorts (\<lambda>d. d)
        (new_server default_config
           (Some \<lparr>pool_start = 9007199254740992, pool_end = 9007199254740994\<rparr>) [] False)
        [\<lparr>displayName = ''Camera'', UUID = ''0a'', associatedPlugin = None, associatedPlatform = None\<rparr>,
         \<lparr>displayName = ''TV'', UUID = ''0b'', associatedPlugin = None, associatedPlatform = None\<rparr>,
         \<lparr>displayName = ''Speaker'', UUID = ''0c'', associatedPlugin = None, associatedPlatform = None\<rparr>]
      = [9007199254740992, 9007199254740992, 9007199254740992]
   \<and> published_ports (effects (handlePublishExternalAccessories (\<lambda>d. d)
        (new_server default_config
           (Some \<lparr>pool_start = 9007199254740992, pool_end = 9007199254740994\<rparr>) [] False)
        [\<lparr>displayName = ''Camera'', UUID = ''0a'', associatedPlugin = None, associatedPlatform = None\<rparr>,
         \<lparr>displayName = ''TV'', UUID = ''0b'', associatedPlugin = None, associatedPlatform = None\<rparr>,
         \<lparr>displayName = ''Speaker'', UUID = ''0c'', associatedPlugin = None, associatedPlatform = None\<rparr>]))
      = [9007199254740992, 9007199254740992, 9007199254740992]
   \<and> check_ports \<lparr>primitive_gt = (\<lambda>a b. False), exponent_text = (\<lambda>n. [])\<rparr>
        (JObj [(''ports'', JObj [(''start'', JNum 9007199254740992), (''end'', JNum 9007199254740994)])])
      = Inr (JObj [(''ports'', JObj [(''start'', JNum 9007199254740992), (''end'', JNum 9007199254740994)])])"
  by code_simp

section \<open>Properties of the cache reconciliation\<close>

text \<open>
  The entries that a reconciliation keeps, and the entries it throws at: those for which
  the lookup gives a member of \<^verbatim>\<open>Object.prototype\<close>.
\<close>

lemma config_loop_returned:
  "returned (config_loop plugins orphans cs verified es)
   \<longleftrightarrow> (\<forall>a. IsPlatform a \<in> set cs \<longrightarrow> find_instance plugins a \<noteq> Member)"
  by (induction plugins orphans cs verified es rule: config_loop.induct)
     (auto split: found.splits)

lemma config_loop_verified:
  "returned (config_loop plugins orphans cs verified es) \<Longrightarrow>
   fst (state_of (config_loop plugins orphans cs verified es))
   = verified @ filter (\<lambda>c. case c of NotPlatform \<Rightarrow> False
                             | IsPlatform a \<Rightarrow> find_instance plugins a \<noteq> Absent \<or> \<not> orphans) cs"
  by (induction plugins orphans cs verified es rule: config_loop.induct)
     (auto split: found.splits)

lemma config_loop_threw:
  "\<not> returned (config_loop plugins orphans cs verified es) \<Longrightarrow>
   \<exists>v fs. config_loop plugins orphans cs verified es = Threw TypeError (v, fs)"
  by (induction plugins orphans cs verified es rule: config_loop.induct)
     (auto split: found.splits)

lemma configCached_returned:
  "returned (configCachedPlatformAccessories s)
   \<longleftrightarrow> (\<forall>a. IsPlatform a \<in> set (cachedPlatformAccessories s)
            \<longrightarrow> find_instance (activeDynamicPlugins s) a \<noteq> Member)"
proof -
  have "returned (configCachedPlatformAccessories s)
        = returned (config_loop (activeDynamicPlugins s) (removeOrphans s) (cachedPlatformAccessories s) [] [])"
    by (simp add: configCachedPlatformAccessories_def split: outcome.splits prod.splits)
  then show ?thesis by (simp only: config_loop_returned)
qed

lemma configCached_verified:
  assumes "returned (configCachedPlatformAccessories s)"
  shows "cachedPlatformAccessories (state_of (configCachedPlatformAccessories s))
   = filter (\<lambda>c. case c of NotPlatform \<Rightarrow> False
                  | IsPlatform a \<Rightarrow> find_instance (activeDynamicPlugins s) a \<noteq> Absent \<or> \<not> removeOrphans s)
       (cachedPlatformAccessories s)"
proof -
  let ?loop = "config_loop (activeDynamicPlugins s) (removeOrphans s) (cachedPlatformAccessories s) [] []"
  have ret: "returned ?loop"
    using assms by (simp add: configCachedPlatformAccessories_def split: outcome.splits prod.splits)
  then obtain verified es where loop: "?loop = Returned (verified, es)"
    by (cases ?loop) auto
  then have result: "cachedPlatformAccessories (state_of (configCachedPlatformAccessories s)) = verified"
    by (simp add: configCachedPlatformAccessories_def emit_def)
  have "fst (state_of ?loop)
        = [] @ filter (\<lambda>c. case c of NotPlatform \<Rightarrow> False
                  | IsPlatform a \<Rightarrow> find_instance (activeDynamicPlugins s) a \<noteq> Absent \<or> \<not> removeOrphans s)
            (cachedPlatformAccessories s)"
    using ret by (rule config_loop_verified)
  then show ?thesis by (simp only: result loop state_of.simps fst_conv append_Nil)
qed

lemma configCached_threw:
  assumes "\<not> returned (configCachedPlatformAccessories s)"
  shows "cachedPlatformAccessories (state_of (configCachedPlatformAccessories s)) = cachedPlatformAccessories s"
    and "\<exists>s'. configCachedPlatformAccessories s = Threw TypeError s'"
proof -
  let ?loop = "config_loop (activeDynamicPlugins s) (removeOrphans s) (cachedPlatformAccessories s) [] []"
  have "\<not> returned ?loop"
    using assms by (simp add: configCachedPlatformAccessories_def split: outcome.splits prod.splits)
  then obtain v fs where loop: "?loop = Threw TypeError (v, fs)"
    using config_loop_threw by blast
  then have step: "configCachedPlatformAccessories s = Threw TypeError (emit fs s)"
    by (simp add: configCachedPlatformAccessories_def)
  show "cachedPlatformAccessories (state_of (configCachedPlatformAccessories s)) = cachedPlatformAccessories s"
    unfolding step by (simp add: emit_def)
  show "\<exists>s'. configCachedPlatformAccessories s = Threw TypeError s'"
    using step by blast
qed

lemma configCached_frame [simp]:
  "activeDynamicPlugins (state_of (configCachedPlatformAccessories s)) = activeDynamicPlugins s"
  "removeOrphans (state_of (configCachedPlatformAccessories s)) = removeOrphans s"
  by (simp_all add: configCachedPlatformAccessories_def emit_def split: outcome.splits prod.splits)

lemma configCached_subset:
  "set (cachedPlatformAccessories (state_of (configCachedPlatformAccessories s)))
   \<subseteq> set (cachedPlatformAccessories s)"
proof (cases "returned (configCachedPlatformAccessories s)")
  case True
  then show ?thesis by (simp add: configCached_verified)
next
  case False
  then show ?thesis by (simp add: configCached_threw(1))
qed

text \<open>Reconciling \<open>n\<close> times in a row, each time on the state that the time before left.\<close>

lemma reconciled_frame [simp]:
  "activeDynamicPlugins (((\<lambda>t. state_of (configCachedPlatformAccessories t)) ^^ n) s) = activeDynamicPlugins s"
  "removeOrphans (((\<lambda>t. state_of (configCachedPlatformAccessories t)) ^^ n) s) = removeOrphans s"
  by (induction n) simp_all

lemma reconciled_subset:
  "set (cachedPlatformAccessories (((\<lambda>t. state_of (configCachedPlatformAccessories t)) ^^ n) s))
   \<subseteq> set (cachedPlatformAccessories s)"
proof (induction n)
  case 0
  then show ?case by simp
next
  case (Suc n)
  have "set (cachedPlatformAccessories (((\<lambda>t. state_of (configCachedPlatformAccessories t)) ^^ Suc n) s))
        \<subseteq> set (cachedPlatformAccessories (((\<lambda>t. state_of (configCachedPlatformAccessories t)) ^^ n) s))"
    using configCached_subset by simp
  with Suc show ?case by blast
qed

lemma filter_twice: "filter P (filter P xs) = filter P xs"
  by (induction xs) auto

text \<open>
  Claim C3. Reconciling the cache that a reconciliation left, with the same active
  instances and the same policy, leaves the same verified accessories; and it returns
  exactly when the first reconciliation returned.
\<close>

theorem reconciliation_idempotent:
  "cachedPlatformAccessories
     (state_of (configCachedPlatformAccessories (state_of (configCachedPlatformAccessories s))))
   = cachedPlatformAccessories (state_of (configCachedPlatformAccessories s))
   \<and> returned (configCachedPlatformAccessories (state_of (configCachedPlatformAccessories s)))
     = returned (configCachedPlatformAccessories s)"
proof (cases "returned (configCachedPlatformAccessories s)")
  case True
  let ?s' = "state_of (configCachedPlatformAccessories s)"
  let ?kept = "\<lambda>c. case c of NotPlatform \<Rightarrow> False
                  | IsPlatform a \<Rightarrow> find_instance (activeDynamicPlugins s) a \<noteq> Absent \<or> \<not> removeOrphans s"
  have once: "cachedPlatformAccessories ?s' = filter ?kept (cachedPlatformAccessories s)"
    using True by (rule configCached_verified)
  have again: "returned (configCachedPlatformAccessories ?s')"
    using True configCached_subset [of s] unfolding configCached_returned configCached_frame by blast
  have "cachedPlatformAccessories (state_of (configCachedPlatformAccessories ?s'))
        = filter ?kept (cachedPlatformAccessories ?s')"
    using configCached_verified [OF again] by (simp only: configCached_frame)
  also have "\<dots> = filter ?kept (cachedPlatformAccessories s)"
    by (simp only: once filter_twice)
  finally show ?thesis using True again by (simp only: once simp_thms)
next
  case False
  let ?s' = "state_of (configCachedPlatformAccessories s)"
  have same: "cachedPlatformAccessories ?s' = cachedPlatformAccessories s"
    using False by (rule configCached_threw(1))
  have again: "\<not> returned (configCachedPlatformAccessories ?s')"
    using False unfolding configCached_returned configCached_frame same by blast
  have "cachedPlatformAccessories (state_of (configCachedPlatformAccessories ?s'))
        = cachedPlatformAccessories ?s'"
    using again by (rule configCached_threw(1))
  then show ?thesis using False again by simp
qed

text \<open>
  Where the reconciliation returns, a cached accessory for which both lookups give
  nothing is among the verified accessories exactly when \<^verbatim>\<open>removeOrphans\<close> is false;
  when it is true, the accessory is absent after every further reconciliation as well.
\<close>

lemma orphan_kept_iff_policy:
  assumes cached: "c \<in> set (cachedPlatformAccessories s)" and orph: "orphan s c"
    and ret: "returned (configCachedPlatformAccessories s)"
  shows "(c \<in> set (cachedPlatformAccessories (state_of (configCachedPlatformAccessories s)))
            \<longleftrightarrow> \<not> removeOrphans s)
       \<and> (removeOrphans s \<longrightarrow>
            c \<notin> set (cachedPlatformAccessories
                       (((\<lambda>t. state_of (configCachedPlatformAccessories t)) ^^ Suc n) s)))"
proof -
  obtain a where c: "c = IsPlatform a" and none: "find_instance (activeDynamicPlugins s) a = Absent"
    using orph by (cases c) (simp_all add: orphan_def)
  have first: "c \<in> set (cachedPlatformAccessories (state_of (configCachedPlatformAccessories s)))
               \<longleftrightarrow> \<not> removeOrphans s"
    using cached c none by (simp add: configCached_verified [OF ret])
  have "c \<notin> set (cachedPlatformAccessories
                   (((\<lambda>t. state_of (configCachedPlatformAccessories t)) ^^ Suc n) s))"
    if "removeOrphans s"
  proof -
    have "c \<notin> set (cachedPlatformAccessories (state_of (configCachedPlatformAccessories s)))"
      using first that by simp
    moreover have "((\<lambda>t. state_of (configCachedPlatformAccessories t)) ^^ Suc n) s
        = ((\<lambda>t. state_of (configCachedPlatformAccessories t)) ^^ n)
            (state_of (configCachedPlatformAccessories s))"
      by (simp only: funpow_Suc_right o_apply)
    ultimately show ?thesis
      using reconciled_subset [of n "state_of (configCachedPlatformAccessories s)"] by auto
  qed
  with first show ?thesis by blast
qed

text \<open>
  Claim C4. The table of active instances is a plain object, so the lookup of a name
  that \<^verbatim>\<open>Object.prototype\<close> has (\<^verbatim>\<open>constructor\<close>, \<^verbatim>\<open>toString\<close>, \<^verbatim>\<open>valueOf\<close>,
  \<dots>) is truthy though no instance is stored. A cached accessory with such a lookup makes
  the reconciliation throw a TypeError at line 335, whatever the policy, and the cache is
  left as it was, the accessory in it.
\<close>

theorem orphan_at_prototype_member_throws:
  assumes cached: "IsPlatform a \<in> set (cachedPlatformAccessories s)"
    and member: "find_instance (activeDynamicPlugins s) a = Member"
  shows "(\<exists>s'. configCachedPlatformAccessories s = Threw TypeError s')
       \<and> cachedPlatformAccessories (state_of (configCachedPlatformAccessories s))
         = cachedPlatformAccessories s
       \<and> IsPlatform a \<in> set (cachedPlatformAccessories (state_of (configCachedPlatformAccessories s)))"
proof -
  have threw: "\<not> returned (configCachedPlatformAccessories s)"
    unfolding configCached_returned using cached member by blast
  have same: "cachedPlatformAccessories (state_of (configCachedPlatformAccessories s))
              = cachedPlatformAccessories s"
    using threw by (rule configCached_threw(1))
  have "\<exists>s'. configCachedPlatformAccessories s = Threw TypeError s'"
    using threw by (rule configCached_threw(2))
  with same cached show ?thesis by simp
qed

theorem orphan_at_prototype_member_throws_witness:
  "spec_orphan
     (new_server default_config None
         [IsPlatform \<lparr>displayName = ''Lamp'', UUID = ''11'',
                      associatedPlugin = Some ''homebridge-hue'', associatedPlatform = Some ''constructor''\<rparr>]
         True)
     (IsPlatform \<lparr>displayName = ''Lamp'', UUID = ''11'',
                  associatedPlugin = Some ''homebridge-hue'', associatedPlatform = Some ''constructor''\<rparr>)
   \<and> removeOrphans
       (new_server default_config None
         [IsPlatform \<lparr>displayName = ''Lamp'', UUID = ''11'',
                      associatedPlugin = Some ''homebridge-hue'', associatedPlatform = Some ''constructor''\<rparr>]
         True)
   \<and> (\<exists>s'. configCachedPlatformAccessories
       (new_server default_config None
         [IsPlatform \<lparr>displayName = ''Lamp'', UUID = ''11'',
                      associatedPlugin = Some ''homebridge-hue'', associatedPlatform = Some ''constructor''\<rparr>]
         True) = Threw TypeError s')
   \<and> IsPlatform \<lparr>displayName = ''Lamp'', UUID = ''11'',
                  associatedPlugin = Some ''homebridge-hue'', associatedPlatform = Some ''constructor''\<rparr>
       \<in> set (cachedPlatformAccessories
           (state_of (configCachedPlatformAccessories
              (new_server default_config None
                 [IsPlatform \<lparr>displayName = ''Lamp'', UUID = ''11'',
                      associatedPlugin = Some ''homebridge-hue'', associatedPlatform = Some ''constructor''\<rparr>]
                 True))))"
proof -
  let ?a = "\<lparr>displayName = ''Lamp'', UUID = ''11'',
                  associatedPlugin = Some ''homebridge-hue'', associatedPlatform = Some ''constructor''\<rparr>"
  let ?s = "new_server default_config None [IsPlatform ?a] True"
  have cached: "IsPlatform ?a \<in> set (cachedPlatformAccessories ?s)"
    by (simp add: new_server_def)
  have member: "find_instance (activeDynamicPlugins ?s) ?a = Member"
    by code_simp
  have orph: "spec_orphan ?s (IsPlatform ?a)"
    by (simp add: new_server_def spec_orphan_def)
  have policy: "removeOrphans ?s"
    by (simp add: new_server_def)
  show ?thesis
    using orphan_at_prototype_member_throws [OF cached member] orph policy by blast
qed

section \<open>Properties of the advertised address\<close>

lemma upper_char_hex:
  "c \<in> set ''0123456789abcdef'' \<Longrightarrow> hex_upper (upper_char c)"
proof -
  have "list_all (\<lambda>c. hex_upper (upper_char c)) ''0123456789abcdef''"
    by code_simp
  then show "c \<in> set ''0123456789abcdef'' \<Longrightarrow> hex_upper (upper_char c)"
    unfolding list_all_iff by blast
qed

lemma replace_x_template:
  assumes "12 \<le> length s"
  shows "replace_x ''xx:xx:xx:xx:xx:xx'' s (- 1)
         = [s ! 0, s ! 1, CHR '':'', s ! 2, s ! 3, CHR '':'', s ! 4, s ! 5, CHR '':'',
            s ! 6, s ! 7, CHR '':'', s ! 8, s ! 9, CHR '':'', s ! 10, s ! 11]"
  using assms by (auto simp: Let_def)

lemma username_regex_test_pairs:
  assumes "hex_upper a0" "hex_upper a1" "hex_upper a2" "hex_upper a3" "hex_upper a4" "hex_upper a5"
    "hex_upper a6" "hex_upper a7" "hex_upper a8" "hex_upper a9" "hex_upper a10" "hex_upper a11"
  shows "username_regex_test [a0, a1, CHR '':'', a2, a3, CHR '':'', a4, a5, CHR '':'',
            a6, a7, CHR '':'', a8, a9, CHR '':'', a10, a11]"
proof -
  have five: "(5::nat) = Suc (Suc (Suc (Suc (Suc 0))))" by simp
  show ?thesis unfolding username_regex_test_def five using assms by simp
qed

lemma generateAddress_format:
  assumes "hex_digest (sha1_hex d)"
  shows "username_regex_test (generateAddress sha1_hex d)"
proof -
  let ?s = "sha1_hex d"
  have len: "length ?s = 40" and hex: "\<And>i. i < 40 \<Longrightarrow> ?s ! i \<in> set ''0123456789abcdef''"
    using assms by (simp_all add: hex_digest_def list_all_length)
  have up: "\<And>i. i < 40 \<Longrightarrow> hex_upper (upper_char (?s ! i))"
    using hex by (rule upper_char_hex)
  have "generateAddress sha1_hex d
        = map upper_char [?s ! 0, ?s ! 1, CHR '':'', ?s ! 2, ?s ! 3, CHR '':'', ?s ! 4, ?s ! 5, CHR '':'',
            ?s ! 6, ?s ! 7, CHR '':'', ?s ! 8, ?s ! 9, CHR '':'', ?s ! 10, ?s ! 11]"
  proof -
    have "12 \<le> length ?s" using len by simp
    then show ?thesis
      unfolding generateAddress_def toUpperCase_def by (simp only: replace_x_template)
  qed
  also have "\<dots> = [upper_char (?s ! 0), upper_char (?s ! 1), CHR '':'', upper_char (?s ! 2), upper_char (?s ! 3), CHR '':'',
            upper_char (?s ! 4), upper_char (?s ! 5), CHR '':'', upper_char (?s ! 6), upper_char (?s ! 7), CHR '':'',
            upper_char (?s ! 8), upper_char (?s ! 9), CHR '':'', upper_char (?s ! 10), upper_char (?s ! 11)]"
    by (simp add: upper_char_def)
  finally show ?thesis
    by (simp only: username_regex_test_pairs up)
qed


lemma table_get_own: "map_of table k \<noteq> None \<Longrightarrow> table_get table k \<noteq> Absent"
  by (auto simp: table_get_def)

lemma publishExternalAccessory_collision:
  assumes "table_get (publishedAccessories s) (generateAddress sha1_hex (UUID accessory)) \<noteq> Absent"
  shows "publishedAccessories (publishExternalAccessory sha1_hex s accessory) = publishedAccessories s"
    and "\<exists>info. effects (publishExternalAccessory sha1_hex s accessory)
           = effects s @ info
             @ [InternalWarn (''Accessory '' @ displayName accessory @ ''experienced an address collision.'')]
         \<and> (info = [] \<or> info = [InternalInfo ''External port pool ran out of ports. Fallback to random assign.''])"
proof -
  obtain port s1 where alloc: "allocatePort s = (port, s1)" by (cases "allocatePort s")
  have pub: "publishedAccessories s1 = publishedAccessories s"
    using alloc by (auto simp: allocatePort_def emit_def split: option.splits if_splits)
  have eff: "effects s1 = effects s
      \<or> effects s1 = effects s @ [InternalInfo ''External port pool ran out of ports. Fallback to random assign.'']"
    using alloc by (auto simp: allocatePort_def emit_def split: option.splits if_splits)
  have step: "publishExternalAccessory sha1_hex s accessory
      = emit [InternalWarn (''Accessory '' @ displayName accessory @ ''experienced an address collision.'')] s1"
    using alloc assms pub by (simp add: publishExternalAccessory_def Let_def)
  show "publishedAccessories (publishExternalAccessory sha1_hex s accessory) = publishedAccessories s"
    using step pub by (simp add: emit_def)
  show "\<exists>info. effects (publishExternalAccessory sha1_hex s accessory)
           = effects s @ info
             @ [InternalWarn (''Accessory '' @ displayName accessory @ ''experienced an address collision.'')]
         \<and> (info = [] \<or> info = [InternalInfo ''External port pool ran out of ports. Fallback to random assign.''])"
    using step eff by (auto simp: emit_def)
qed

lemma publishExternalAccessory_published:
  "table_get (publishedAccessories (publishExternalAccessory sha1_hex s accessory))
     (generateAddress sha1_hex (UUID accessory)) \<noteq> Absent"
proof -
  obtain port s1 where alloc: "allocatePort s = (port, s1)" by (cases "allocatePort s")
  show ?thesis
  proof (cases "table_get (publishedAccessories s1) (generateAddress sha1_hex (UUID accessory)) = Absent")
    case True
    then show ?thesis
      using alloc by (simp add: publishExternalAccessory_def Let_def emit_def table_get_append_absent)
  next
    case False
    then show ?thesis
      using alloc by (simp add: publishExternalAccessory_def Let_def emit_def)
  qed
qed

text \<open>
  Claim C5. The advertised address is computed from the identifier's digest alone, and
  for a digest of SHA-1 it has the format of the username pattern. A request whose
  address is already published is not published: the table of published accessories
  stays as it is and the only effects are log lines, the warning last. In particular
  a second accessory with the identifier of the first is rejected.
\<close>

theorem address_collision_rejected:
  "(hex_digest (sha1_hex (UUID accessory))
      \<longrightarrow> username_regex_test (generateAddress sha1_hex (UUID accessory)))
   \<and> (map_of (publishedAccessories s) (generateAddress sha1_hex (UUID accessory)) \<noteq> None
      \<longrightarrow> publishedAccessories (publishExternalAccessory sha1_hex s accessory) = publishedAccessories s
        \<and> (\<exists>info. effects (publishExternalAccessory sha1_hex s accessory)
               = effects s @ info
                 @ [InternalWarn (''Accessory '' @ displayName accessory @ ''experienced an address collision.'')]
             \<and> (info = [] \<or> info = [InternalInfo ''External port pool ran out of ports. Fallback to random assign.''])))
   \<and> (UUID later = UUID accessory
      \<longrightarrow> publishedAccessories (handlePublishExternalAccessories sha1_hex s [accessory, later])
          = publishedAccessories (handlePublishExternalAccessories sha1_hex s [accessory]))"
proof (intro conjI impI)
  assume "hex_digest (sha1_hex (UUID accessory))"
  then show "username_regex_test (generateAddress sha1_hex (UUID accessory))"
    by (rule generateAddress_format)
next
  assume c: "map_of (publishedAccessories s) (generateAddress sha1_hex (UUID accessory)) \<noteq> None"
  show "publishedAccessories (publishExternalAccessory sha1_hex s accessory) = publishedAccessories s"
    by (rule publishExternalAccessory_collision(1) [OF table_get_own [OF c]])
  show "\<exists>info. effects (publishExternalAccessory sha1_hex s accessory)
               = effects s @ info
                 @ [InternalWarn (''Accessory '' @ displayName accessory @ ''experienced an address collision.'')]
             \<and> (info = [] \<or> info = [InternalInfo ''External port pool ran out of ports. Fallback to random assign.''])"
    by (rule publishExternalAccessory_collision(2) [OF table_get_own [OF c]])
next
  assume same: "UUID later = UUID accessory"
  let ?s1 = "publishExternalAccessory sha1_hex s accessory"
  have "table_get (publishedAccessories ?s1) (generateAddress sha1_hex (UUID later)) \<noteq> Absent"
    using publishExternalAccessory_published [of sha1_hex s accessory] same by simp
  then have "publishedAccessories (publishExternalAccessory sha1_hex ?s1 later) = publishedAccessories ?s1"
    by (rule publishExternalAccessory_collision(1))
  then show "publishedAccessories (handlePublishExternalAccessories sha1_hex s [accessory, later])
          = publishedAccessories (handlePublishExternalAccessories sha1_hex s [accessory])"
    by (simp add: handlePublishExternalAccessories_def)
qed

theorem address_collision_rejected_witness:
  "hex_digest ''da39a3ee5e6b4b0d3255bfef95601890afd80709''
   \<and> generateAddress (\<lambda>d. ''da39a3ee5e6b4b0d3255bfef95601890afd80709'') ''0a'' = ''DA:39:A3:EE:5E:6B''
   \<and> username_regex_test ''DA:39:A3:EE:5E:6B''
   \<and> publishedAccessories
        (handlePublishExternalAccessories (\<lambda>d. ''da39a3ee5e6b4b0d3255bfef95601890afd80709'')
           (new_server default_config None [] False)
           [\<lparr>displayName = ''Camera'', UUID = ''0a'', associatedPlugin = None, associatedPlatform = None\<rparr>,
            \<lparr>displayName = ''Copy'', UUID = ''0a'', associatedPlugin = None, associatedPlatform = None\<rparr>])
      = [(''DA:39:A3:EE:5E:6B'',
          \<lparr>displayName = ''Camera'', UUID = ''0a'', associatedPlugin = None, associatedPlatform = None\<rparr>)]
   \<and> publishedAccessories
        (publishExternalAccessory (\<lambda>d. ''da39a3ee5e6b4b0d3255bfef95601890afd80709'')
           ((new_server default_config None [] False)
              \<lparr>publishedAccessories :=
                 [(''DA:39:A3:EE:5E:6B'',
                   \<lparr>displayName = ''TV'', UUID = ''0b'', associatedPlugin = None, associatedPlatform = None\<rparr>)]\<rparr>)
           \<lparr>displayName = ''Camera'', UUID = ''0a'', associatedPlugin = None, associatedPlatform = None\<rparr>)
      = [(''DA:39:A3:EE:5E:6B'',
          \<lparr>displayName = ''TV'', UUID = ''0b'', associatedPlugin = None, associatedPlatform = None\<rparr>)]"
proof -
  let ?sha = "\<lambda>d::string. ''da39a3ee5e6b4b0d3255bfef95601890afd80709''"
  let ?camera = "\<lparr>displayName = ''Camera'', UUID = ''0a'', associatedPlugin = None, associatedPlatform = None\<rparr>"
  let ?copy = "\<lparr>displayName = ''Copy'', UUID = ''0a'', associatedPlugin = None, associatedPlatform = None\<rparr>"
  let ?tv = "\<lparr>displayName = ''TV'', UUID = ''0b'', associatedPlugin = None, associatedPlatform = None\<rparr>"
  let ?s = "(new_server default_config None [] False)\<lparr>publishedAccessories := [(''DA:39:A3:EE:5E:6B'', ?tv)]\<rparr>"
  have digest: "hex_digest (?sha (UUID ?camera))" by code_simp
  have addr: "generateAddress ?sha ''0a'' = ''DA:39:A3:EE:5E:6B''" by code_simp
  have collision: "map_of (publishedAccessories ?s) (generateAddress ?sha (UUID ?camera)) \<noteq> None"
    by code_simp
  have same: "UUID ?copy = UUID ?camera" by simp
  have one: "publishedAccessories (handlePublishExternalAccessories ?sha (new_server default_config None [] False) [?camera])
      = [(''DA:39:A3:EE:5E:6B'', ?camera)]"
    by code_simp
  have "username_regex_test (generateAddress ?sha (UUID ?camera))"
    using address_collision_rejected [of ?sha ?camera ?s ?copy] digest by blast
  moreover have "publishedAccessories (publishExternalAccessory ?sha ?s ?camera) = publishedAccessories ?s"
    using address_collision_rejected [of ?sha ?camera ?s ?copy] collision by blast
  moreover have "publishedAccessories (handlePublishExternalAccessories ?sha (new_server default_config None [] False) [?camera, ?copy])
      = publishedAccessories (handlePublishExternalAccessories ?sha (new_server default_config None [] False) [?camera])"
    using address_collision_rejected [of ?sha ?camera "new_server default_config None [] False" ?copy] same by blast
  ultimately show ?thesis using digest addr one by simp
qed

section \<open>Properties of running and publishing\<close>

lemma pending_snoc_False:
  "filter (\<lambda>k. \<not> (xs @ [False]) ! k) [0..<length (xs @ [False])]
   = filter (\<lambda>k. \<not> xs ! k) [0..<length xs] @ [length xs]"
proof -
  have "filter (\<lambda>k. \<not> (xs @ [False]) ! k) [0..<length xs] = filter (\<lambda>k. \<not> xs ! k) [0..<length xs]"
    by (rule filter_cong) (auto simp: nth_append)
  then show ?thesis by simp
qed

lemma pending_snoc_True:
  "filter (\<lambda>k. \<not> (xs @ [True]) ! k) [0..<length (xs @ [True])]
   = filter (\<lambda>k. \<not> xs ! k) [0..<length xs]"
proof -
  have "filter (\<lambda>k. \<not> (xs @ [True]) ! k) [0..<length xs] = filter (\<lambda>k. \<not> xs ! k) [0..<length xs]"
    by (rule filter_cong) (auto simp: nth_append)
  then show ?thesis by simp
qed

lemma pending_update:
  "filter (\<lambda>j. \<not> xs[k := True] ! j) [0..<length (xs[k := True])]
   = filter (\<lambda>j. j \<noteq> k) (filter (\<lambda>j. \<not> xs ! j) [0..<length xs])"
proof -
  have "(\<not> xs[k := True] ! j) = (\<not> xs ! j \<and> j \<noteq> k)" if "j \<in> set [0..<length xs]" for j
    using that by (cases "j = k") simp_all
  then have "filter (\<lambda>j. \<not> xs[k := True] ! j) [0..<length xs]
        = filter (\<lambda>j. \<not> xs ! j \<and> j \<noteq> k) [0..<length xs]"
    by (rule filter_cong [OF refl])
  then show ?thesis by simp
qed

lemma length_filter_neq:
  assumes "distinct ys" and "k \<in> set ys"
  shows "length (filter (\<lambda>j. j \<noteq> k) ys) = length ys - 1"
proof -
  have "filter (\<lambda>j. j \<noteq> k) ys = removeAll k ys"
    by (induction ys) auto
  also have "\<dots> = remove1 k ys"
    using assms(1) by (simp add: distinct_remove1_removeAll)
  finally show ?thesis using assms(2) by (simp add: length_remove1)
qed

lemma distinct_pending: "distinct (pending s)"
  by (simp add: pending_def)

lemma set_pending: "k \<in> set (pending s) \<longleftrightarrow> k < length (onceCalled s) \<and> \<not> onceCalled s ! k"
  by (auto simp: pending_def)

lemma pending_emit [simp]: "pending (emit es s) = pending s"
  by (simp add: pending_def emit_def)

lemma publishes_emit: "publishes (emit es s) = publishes s + length (filter is_publish es)"
  by (simp add: publishes_def emit_def)

lemma emit_frame [simp]:
  "asyncCalls (emit es s) = asyncCalls s"
  "asyncWait (emit es s) = asyncWait s"
  "onceCalled (emit es s) = onceCalled s"
  by (simp_all add: emit_def)

lemma found_no_publish:
  "filter is_publish (concat (map (\<lambda>name. [PluginLog (line name), AddBridgedAccessory name])
     foundAccessories)) = []"
  by (induction foundAccessories) (simp_all add: is_publish_def)

lemma publishes_publish: "publishes (publish s) = Suc (publishes s)"
  by (simp add: publish_def publishes_emit is_publish_def)

lemma publish_frame [simp]:
  "asyncCalls (publish s) = asyncCalls s"
  "asyncWait (publish s) = asyncWait s"
  "onceCalled (publish s) = onceCalled s"
  by (simp_all add: publish_def)

lemma publishes_frame [simp]:
  "publishes (s\<lparr>asyncCalls := n\<rparr>) = publishes s"
  "publishes (s\<lparr>asyncWait := b\<rparr>) = publishes s"
  "publishes (s\<lparr>onceCalled := xs\<rparr>) = publishes s"
  "publishes (s\<lparr>activeDynamicPlugins := ps\<rparr>) = publishes s"
  "publishes (s\<lparr>cachedPlatformAccessories := cs\<rparr>) = publishes s"
  by (simp_all add: publishes_def)

lemma foundAccessoriesCallback_state:
  "asyncWait (foundAccessoriesCallback f s) = asyncWait s"
  "asyncCalls (foundAccessoriesCallback f s) = asyncCalls s - 1"
  "onceCalled (foundAccessoriesCallback f s) = onceCalled s"
  "publishes (foundAccessoriesCallback f s)
     = publishes s + (if asyncCalls s = 1 \<and> \<not> asyncWait s then 1 else 0)"
  by (simp_all add: foundAccessoriesCallback_def Let_def publishes_publish publishes_emit
      found_no_publish)


lemma callOnce_fresh:
  assumes "k < length (onceCalled s)" and "\<not> onceCalled s ! k"
  shows "callOnce k f s = Inr (foundAccessoriesCallback f (s\<lparr>onceCalled := (onceCalled s)[k := True]\<rparr>))"
  using assms by (simp add: callOnce_def)

lemma pending_foundAccessoriesCallback [simp]:
  "pending (foundAccessoriesCallback f s) = pending s"
  by (simp add: pending_def foundAccessoriesCallback_state)

lemma loadPlatformAccessories_waiting:
  assumes wait: "asyncWait s" and inv: "asyncCalls s = int (length (pending s))"
  shows "asyncWait (loadPlatformAccessories d s)
       \<and> asyncCalls (loadPlatformAccessories d s) = int (length (pending (loadPlatformAccessories d s)))
       \<and> publishes (loadPlatformAccessories d s) = publishes s"
proof (cases d)
  case Later
  then have s': "loadPlatformAccessories d s
      = s\<lparr>asyncCalls := asyncCalls s + 1, onceCalled := onceCalled s @ [False]\<rparr>"
    by (simp add: loadPlatformAccessories_def)
  have "pending (loadPlatformAccessories d s) = pending s @ [length (onceCalled s)]"
    unfolding s' pending_def using pending_snoc_False [of "onceCalled s"] by simp
  then show ?thesis using wait inv s' by simp
next
  case (Immediately f)
  let ?s1 = "s\<lparr>asyncCalls := asyncCalls s + 1, onceCalled := onceCalled s @ [False]\<rparr>"
  let ?s2 = "?s1\<lparr>onceCalled := (onceCalled ?s1)[length (onceCalled s) := True]\<rparr>"
  have "callOnce (length (onceCalled s)) f ?s1 = Inr (foundAccessoriesCallback f ?s2)"
    by (rule callOnce_fresh) simp_all
  then have s': "loadPlatformAccessories d s = foundAccessoriesCallback f ?s2"
    using Immediately by (simp add: loadPlatformAccessories_def Let_def)
  have called: "onceCalled ?s2 = onceCalled s @ [True]"
    by simp
  have "pending ?s2 = pending s"
    unfolding pending_def called using pending_snoc_True [of "onceCalled s"] by simp
  then have pend: "pending (loadPlatformAccessories d s) = pending s"
    unfolding s' by simp
  have "asyncWait ?s2" using wait by simp
  then have "publishes (loadPlatformAccessories d s) = publishes s"
    unfolding s' by (simp add: foundAccessoriesCallback_state)
  moreover have "asyncCalls (loadPlatformAccessories d s) = asyncCalls s"
    unfolding s' by (simp add: foundAccessoriesCallback_state)
  moreover have "asyncWait (loadPlatformAccessories d s)"
    unfolding s' using wait by (simp add: foundAccessoriesCallback_state)
  ultimately show ?thesis using inv pend by simp
qed

lemma loadPlatform_waiting:
  assumes wait: "asyncWait s" and inv: "asyncCalls s = int (length (pending s))"
  shows "asyncWait (loadPlatform s e)
       \<and> asyncCalls (loadPlatform s e) = int (length (pending (loadPlatform s e)))
       \<and> publishes (loadPlatform s e) = publishes s"
proof (cases e)
  case (NoPlatform name)
  then show ?thesis using wait inv by (simp add: publishes_emit is_publish_def)
next
  case (DynamicPlatform name inst)
  then show ?thesis using wait inv by (simp add: pending_def)
next
  case (StaticPlatform name d)
  then show ?thesis using loadPlatformAccessories_waiting [OF wait inv] by simp
qed

lemma loadPlatforms_waiting:
  assumes "asyncWait s" and "asyncCalls s = int (length (pending s))"
  shows "asyncWait (loadPlatforms es s)
       \<and> asyncCalls (loadPlatforms es s) = int (length (pending (loadPlatforms es s)))
       \<and> publishes (loadPlatforms es s) = publishes s"
  using assms unfolding loadPlatforms_def
proof (induction es arbitrary: s)
  case Nil
  then show ?case by simp
next
  case (Cons e es)
  have step: "asyncWait (loadPlatform s e)
       \<and> asyncCalls (loadPlatform s e) = int (length (pending (loadPlatform s e)))
       \<and> publishes (loadPlatform s e) = publishes s"
    by (rule loadPlatform_waiting [OF Cons.prems])
  then have "asyncWait (foldl loadPlatform (loadPlatform s e) es)
       \<and> asyncCalls (foldl loadPlatform (loadPlatform s e) es)
           = int (length (pending (foldl loadPlatform (loadPlatform s e) es)))
       \<and> publishes (foldl loadPlatform (loadPlatform s e) es) = publishes (loadPlatform s e)"
    using Cons.IH by blast
  with step show ?case by simp
qed

lemma loadAccessory_frame:
  "asyncCalls (loadAccessory s e) = asyncCalls s"
  "asyncWait (loadAccessory s e) = asyncWait s"
  "onceCalled (loadAccessory s e) = onceCalled s"
  "publishes (loadAccessory s e) = publishes s"
  by (cases e; simp add: publishes_emit is_publish_def)+

lemma loadAccessories_frame:
  "asyncCalls (loadAccessories es s) = asyncCalls s"
  "asyncWait (loadAccessories es s) = asyncWait s"
  "onceCalled (loadAccessories es s) = onceCalled s"
  "publishes (loadAccessories es s) = publishes s"
  unfolding loadAccessories_def
  by (induction es arbitrary: s; simp add: loadAccessory_frame)+

lemma loadDynamicPlatform_frame:
  "asyncCalls (loadDynamicPlatform s e) = asyncCalls s"
  "asyncWait (loadDynamicPlatform s e) = asyncWait s"
  "onceCalled (loadDynamicPlatform s e) = onceCalled s"
  "publishes (loadDynamicPlatform s e) = publishes s"
  by (cases e; simp add: publishes_emit is_publish_def)+

lemma loadDynamicPlatforms_frame:
  "asyncCalls (loadDynamicPlatforms es s) = asyncCalls s"
  "asyncWait (loadDynamicPlatforms es s) = asyncWait s"
  "onceCalled (loadDynamicPlatforms es s) = onceCalled s"
  "publishes (loadDynamicPlatforms es s) = publishes s"
  unfolding loadDynamicPlatforms_def
  by (induction es arbitrary: s; simp add: loadDynamicPlatform_frame)+

lemma config_loop_no_publish:
  "filter is_publish (snd (state_of (config_loop plugins orphans cs verified es))) = filter is_publish es"
  by (induction plugins orphans cs verified es rule: config_loop.induct)
     (auto simp: is_publish_def split: found.splits)

lemma configCached_state:
  "\<exists>es v. state_of (configCachedPlatformAccessories s) = emit es (s\<lparr>cachedPlatformAccessories := v\<rparr>)
          \<and> filter is_publish es = []"
proof -
  let ?loop = "config_loop (activeDynamicPlugins s) (removeOrphans s) (cachedPlatformAccessories s) [] []"
  have quiet: "filter is_publish (snd (state_of ?loop)) = []"
    using config_loop_no_publish [of "activeDynamicPlugins s" "removeOrphans s" "cachedPlatformAccessories s" "[]" "[]"]
    by simp
  show ?thesis
  proof (cases ?loop)
    case (Returned r)
    obtain verified es where r: "r = (verified, es)" by (cases r)
    have "state_of (configCachedPlatformAccessories s) = emit es (s\<lparr>cachedPlatformAccessories := verified\<rparr>)"
      using Returned r by (simp add: configCachedPlatformAccessories_def)
    moreover have "filter is_publish es = []" using quiet Returned r by simp
    ultimately show ?thesis by blast
  next
    case (Threw e r)
    obtain verified es where r: "r = (verified, es)" by (cases r)
    have "state_of (configCachedPlatformAccessories s)
          = emit es (s\<lparr>cachedPlatformAccessories := cachedPlatformAccessories s\<rparr>)"
      using Threw r by (simp add: configCachedPlatformAccessories_def)
    moreover have "filter is_publish es = []" using quiet Threw r by simp
    ultimately show ?thesis by blast
  qed
qed

lemma configCached_run_frame:
  "asyncCalls (state_of (configCachedPlatformAccessories s)) = asyncCalls s"
  "asyncWait (state_of (configCachedPlatformAccessories s)) = asyncWait s"
  "onceCalled (state_of (configCachedPlatformAccessories s)) = onceCalled s"
  "publishes (state_of (configCachedPlatformAccessories s)) = publishes s"
proof -
  obtain es v where s': "state_of (configCachedPlatformAccessories s) = emit es (s\<lparr>cachedPlatformAccessories := v\<rparr>)"
    and quiet: "filter is_publish es = []"
    using configCached_state by blast
  show "publishes (state_of (configCachedPlatformAccessories s)) = publishes s"
    unfolding s' using quiet by (simp add: publishes_emit)
  show "asyncCalls (state_of (configCachedPlatformAccessories s)) = asyncCalls s"
    "asyncWait (state_of (configCachedPlatformAccessories s)) = asyncWait s"
    "onceCalled (state_of (configCachedPlatformAccessories s)) = onceCalled s"
    unfolding s' by simp_all
qed

text \<open>
  The state at the end of the loading pass: the flag is still true, the counter is the
  number of kept callbacks, and the bridge has not been published.
\<close>

lemma load_state:
  assumes fresh: "onceCalled s = []"
  shows "asyncWait (state_of (load p s))
       \<and> asyncCalls (state_of (load p s)) = int (length (pending (state_of (load p s))))
       \<and> publishes (state_of (load p s)) = publishes s"
proof -
  let ?s1 = "s\<lparr>asyncCalls := 0, asyncWait := True\<rparr>"
  let ?s2 = "loadPlatforms (platforms p) ?s1"
  let ?s3 = "loadAccessories (accessories p) ?s2"
  let ?s4 = "loadDynamicPlatforms (dynamicPlatforms p) ?s3"
  let ?s5 = "state_of (configCachedPlatformAccessories ?s4)"
  have load: "state_of (load p s) = ?s5"
    by (simp add: load_def Let_def)
  have "asyncWait ?s1" and "asyncCalls ?s1 = int (length (pending ?s1))"
    using fresh by (simp_all add: pending_def)
  then have s2: "asyncWait ?s2" "asyncCalls ?s2 = int (length (pending ?s2))" "publishes ?s2 = publishes ?s1"
    using loadPlatforms_waiting [of ?s1 "platforms p"] by blast+
  have called: "onceCalled ?s5 = onceCalled ?s2"
    by (simp add: configCached_run_frame loadDynamicPlatforms_frame loadAccessories_frame)
  then have pend: "pending ?s5 = pending ?s2"
    by (simp add: pending_def)
  have calls: "asyncCalls ?s5 = asyncCalls ?s2"
    by (simp add: configCached_run_frame loadDynamicPlatforms_frame loadAccessories_frame)
  have wait: "asyncWait ?s5"
    using s2(1) by (simp add: configCached_run_frame loadDynamicPlatforms_frame loadAccessories_frame)
  have pubs: "publishes ?s5 = publishes s"
    using s2(3) by (simp add: configCached_run_frame loadDynamicPlatforms_frame loadAccessories_frame)
  show ?thesis
    unfolding load using wait calls pend s2(2) pubs by simp
qed

text \<open>
  What \<^verbatim>\<open>run\<close> does after the loading pass: nothing if the pass threw; otherwise the
  bridge is published if no callback is kept, and the launch is announced.
\<close>

lemma run_effects:
  assumes fresh: "onceCalled s = []"
  shows "effects (state_of (run p s))
         = effects (state_of (load p s))
           @ (if returned (load p s) then
                (if pending (state_of (load p s)) = [] then
                   [BridgePublish, ProcessSend ''setup_uri'' [], ProcessSend ''running'' []]
                 else [])
                @ [ApiEmit ''didFinishLaunching'', ProcessSend ''api_launched'' []]
              else [])"
proof (cases "load p s")
  case (Threw e s5)
  then show ?thesis by (simp add: run_def)
next
  case (Returned s5)
  have "asyncCalls s5 = int (length (pending s5))"
    using load_state [OF fresh, of p] Returned by simp
  then have "asyncCalls s5 = 0 \<longleftrightarrow> pending s5 = []" by simp
  then show ?thesis
    using Returned by (simp add: run_def Let_def publish_def emit_def)
qed

lemma run_state:
  assumes fresh: "onceCalled s = []"
  shows "asyncWait (state_of (run p s)) = (\<not> returned (run p s))
       \<and> asyncCalls (state_of (run p s)) = int (length (pending (state_of (run p s))))
       \<and> publishes (state_of (run p s))
           = publishes s + (if \<not> asyncWait (state_of (run p s)) \<and> pending (state_of (run p s)) = [] then 1 else 0)
       \<and> pending (state_of (run p s)) = pending (state_of (load p s))
       \<and> returned (run p s) = returned (load p s)"
proof (cases "load p s")
  case (Threw e s5)
  then have run: "run p s = Threw e s5" by (simp add: run_def)
  show ?thesis
    unfolding run using load_state [OF fresh, of p] Threw by simp
next
  case (Returned s5)
  let ?s6 = "s5\<lparr>asyncWait := False\<rparr>"
  let ?s7 = "if asyncCalls ?s6 = 0 then publish ?s6 else ?s6"
  have run: "run p s = Returned (emit [ApiEmit ''didFinishLaunching'', ProcessSend ''api_launched'' []] ?s7)"
    using Returned by (simp add: run_def Let_def)
  have s5: "asyncCalls s5 = int (length (pending s5))" "publishes s5 = publishes s"
    using load_state [OF fresh, of p] Returned by simp_all
  have pend6: "pending ?s6 = pending s5"
    by (simp add: pending_def)
  have pend7: "pending ?s7 = pending s5"
    by (simp add: pending_def)
  have "\<not> asyncWait ?s7" by simp
  moreover have "asyncCalls ?s7 = int (length (pending ?s7))"
    using s5(1) pend7 by simp
  moreover have "publishes ?s7 = publishes s + (if pending ?s7 = [] then 1 else 0)"
    using s5 pend7 by (simp add: publishes_publish)
  ultimately show ?thesis
    unfolding run using Returned pend7 by (simp add: publishes_emit is_publish_def)
qed

lemma foundAccessoriesCallback_effects:
  "\<exists>t. effects (foundAccessoriesCallback f s) = effects s @ t"
  by (simp add: foundAccessoriesCallback_def Let_def publish_def emit_def)

lemma deliver_effects: "\<exists>t. effects (deliver s c) = effects s @ t"
proof (cases "callOnce (fst c) (snd c) s")
  case (Inl e)
  then show ?thesis by (simp add: deliver_def)
next
  case (Inr s')
  then have "s' = s \<or> s' = foundAccessoriesCallback (snd c) (s\<lparr>onceCalled := (onceCalled s)[fst c := True]\<rparr>)"
    by (auto simp: callOnce_def split: if_splits)
  moreover have "\<exists>t. effects (foundAccessoriesCallback (snd c) (s\<lparr>onceCalled := (onceCalled s)[fst c := True]\<rparr>))
                 = effects (s\<lparr>onceCalled := (onceCalled s)[fst c := True]\<rparr>) @ t"
    by (rule foundAccessoriesCallback_effects)
  ultimately show ?thesis using Inr by (auto simp: deliver_def)
qed

lemma deliver_all_effects: "\<exists>t. effects (foldl deliver s calls) = effects s @ t"
proof (induction calls arbitrary: s)
  case Nil
  then show ?case by simp
next
  case (Cons c calls)
  obtain t where t: "effects (deliver s c) = effects s @ t"
    using deliver_effects by blast
  obtain u where "effects (foldl deliver (deliver s c) calls) = effects (deliver s c) @ u"
    using Cons.IH by blast
  then have "effects (foldl deliver s (c # calls)) = effects s @ (t @ u)"
    using t by simp
  then show ?case by blast
qed

lemma deliver_state:
  assumes inv: "asyncCalls s = int (length (pending s))"
    and pubs: "publishes s = n + (if \<not> asyncWait s \<and> pending s = [] then 1 else 0)"
  shows "asyncWait (deliver s c) = asyncWait s
       \<and> asyncCalls (deliver s c) = int (length (pending (deliver s c)))
       \<and> publishes (deliver s c) = n + (if \<not> asyncWait s \<and> pending (deliver s c) = [] then 1 else 0)
       \<and> pending (deliver s c) = filter (\<lambda>j. j \<noteq> fst c) (pending s)"
proof (cases "fst c \<in> set (pending s)")
  case False
  then have "callOnce (fst c) (snd c) s = Inr s \<or> callOnce (fst c) (snd c) s = Inl CalledTwice"
    by (auto simp: callOnce_def set_pending)
  then have same: "deliver s c = s"
    by (auto simp: deliver_def)
  have "filter (\<lambda>j. j \<noteq> fst c) (pending s) = pending s"
    using False by (simp add: filter_id_conv) blast
  then show ?thesis using same inv pubs by simp
next
  case True
  then have k: "fst c < length (onceCalled s)" "\<not> onceCalled s ! fst c"
    by (simp_all add: set_pending)
  let ?s1 = "s\<lparr>onceCalled := (onceCalled s)[fst c := True]\<rparr>"
  have s': "deliver s c = foundAccessoriesCallback (snd c) ?s1"
    using callOnce_fresh [OF k] by (simp add: deliver_def)
  have pend1: "pending ?s1 = filter (\<lambda>j. j \<noteq> fst c) (pending s)"
    unfolding pending_def using pending_update [of "onceCalled s" "fst c"] by simp
  then have pend: "pending (deliver s c) = filter (\<lambda>j. j \<noteq> fst c) (pending s)"
    unfolding s' by simp
  have len: "length (pending (deliver s c)) = length (pending s) - 1"
    unfolding pend by (rule length_filter_neq [OF distinct_pending True])
  have pos: "0 < length (pending s)"
    using True by (rule length_pos_if_in_set)
  have calls: "asyncCalls (deliver s c) = asyncCalls s - 1"
    unfolding s' by (simp add: foundAccessoriesCallback_state)
  have "publishes (deliver s c) = publishes s + (if asyncCalls s = 1 \<and> \<not> asyncWait s then 1 else 0)"
    unfolding s' by (simp add: foundAccessoriesCallback_state)
  moreover have "publishes s = n"
    using pubs pos by auto
  moreover have "asyncCalls s = 1 \<longleftrightarrow> pending (deliver s c) = []"
  proof -
    have "pending (deliver s c) = [] \<longleftrightarrow> length (pending (deliver s c)) = 0"
      by simp
    also have "\<dots> \<longleftrightarrow> length (pending s) = 1"
      using len pos by arith
    also have "\<dots> \<longleftrightarrow> asyncCalls s = 1"
      using inv by simp
    finally show ?thesis by simp
  qed
  ultimately have "publishes (deliver s c)
      = n + (if \<not> asyncWait s \<and> pending (deliver s c) = [] then 1 else 0)"
    by auto
  moreover have "asyncCalls (deliver s c) = int (length (pending (deliver s c)))"
  proof -
    have "int (length (pending s) - 1) = int (length (pending s)) - 1"
      using pos by arith
    then show ?thesis using calls inv len by simp
  qed
  moreover have "asyncWait (deliver s c) = asyncWait s"
    unfolding s' by (simp add: foundAccessoriesCallback_state)
  ultimately show ?thesis using pend by simp
qed

lemma deliver_all_state:
  assumes "asyncCalls s = int (length (pending s))"
    and "publishes s = n + (if \<not> asyncWait s \<and> pending s = [] then 1 else 0)"
  shows "asyncCalls (foldl deliver s calls) = int (length (pending (foldl deliver s calls)))
       \<and> publishes (foldl deliver s calls)
           = n + (if \<not> asyncWait s \<and> pending (foldl deliver s calls) = [] then 1 else 0)
       \<and> pending (foldl deliver s calls) = filter (\<lambda>j. j \<notin> fst ` set calls) (pending s)"
  using assms
proof (induction calls arbitrary: s)
  case Nil
  then show ?case by simp
next
  case (Cons c calls)
  have step: "asyncWait (deliver s c) = asyncWait s
       \<and> asyncCalls (deliver s c) = int (length (pending (deliver s c)))
       \<and> publishes (deliver s c) = n + (if \<not> asyncWait s \<and> pending (deliver s c) = [] then 1 else 0)
       \<and> pending (deliver s c) = filter (\<lambda>j. j \<noteq> fst c) (pending s)"
    by (rule deliver_state [OF Cons.prems])
  then have inv': "asyncCalls (deliver s c) = int (length (pending (deliver s c)))"
    and pubs': "publishes (deliver s c)
        = n + (if \<not> asyncWait (deliver s c) \<and> pending (deliver s c) = [] then 1 else 0)"
    by simp_all
  have rest: "asyncCalls (foldl deliver (deliver s c) calls)
           = int (length (pending (foldl deliver (deliver s c) calls)))
       \<and> publishes (foldl deliver (deliver s c) calls)
           = n + (if \<not> asyncWait (deliver s c) \<and> pending (foldl deliver (deliver s c) calls) = [] then 1 else 0)
       \<and> pending (foldl deliver (deliver s c) calls)
           = filter (\<lambda>j. j \<notin> fst ` set calls) (pending (deliver s c))"
    by (rule Cons.IH [OF inv' pubs'])
  have "filter (\<lambda>j. j \<notin> fst ` set calls) (pending (deliver s c))
        = filter (\<lambda>j. j \<notin> fst ` set (c # calls)) (pending s)"
    using step by (auto intro: filter_cong)
  with rest step show ?case by simp
qed

text \<open>
  Claim C1, as the code has it. No platform whose instance is stored is named
  \<^verbatim>\<open>__proto__\<close>. On a new server, the synchronous loading pass of \<^verbatim>\<open>run\<close> does
  not publish the bridge, and what \<^verbatim>\<open>run\<close> does then comes after everything the pass
  did: if the pass threw, nothing; otherwise the bridge is published there if no
  callback is kept, and the launch is announced. Everything the callbacks do comes after
  that. After \<^verbatim>\<open>run\<close> and any calls of callbacks by the plugins, the bridge has been
  published once if the loading pass returned and every callback that a plugin kept at
  its end has been called, and not at all otherwise; the counter is the number of kept
  callbacks that have not been called. So there is no publish while a callback is
  pending, one when the last of them is called, and none after that, whatever is called
  again.
\<close>

theorem publish_once_after_loading:
  assumes fresh: "onceCalled s = []" and names: "plain_names p"
  shows "publishes (state_of (load p s)) = publishes s
       \<and> effects (state_of (run p s))
           = effects (state_of (load p s))
             @ (if returned (load p s) then
                  (if pending (state_of (load p s)) = [] then
                     [BridgePublish, ProcessSend ''setup_uri'' [], ProcessSend ''running'' []]
                   else [])
                  @ [ApiEmit ''didFinishLaunching'', ProcessSend ''api_launched'' []]
                else [])
       \<and> (\<exists>later. effects (foldl deliver (state_of (run p s)) calls)
                    = effects (state_of (run p s)) @ later)
       \<and> publishes (foldl deliver (state_of (run p s)) calls)
           = publishes s
             + (if returned (load p s) \<and> set (pending (state_of (load p s))) \<subseteq> fst ` set calls
                then 1 else 0)
       \<and> asyncCalls (foldl deliver (state_of (run p s)) calls)
           = int (length (filter (\<lambda>k. k \<notin> fst ` set calls) (pending (state_of (load p s)))))"
proof -
  have loaded: "publishes (state_of (load p s)) = publishes s"
    using load_state [OF fresh] by blast
  have run: "asyncWait (state_of (run p s)) = (\<not> returned (run p s))"
    "asyncCalls (state_of (run p s)) = int (length (pending (state_of (run p s))))"
    "publishes (state_of (run p s))
       = publishes s + (if \<not> asyncWait (state_of (run p s)) \<and> pending (state_of (run p s)) = [] then 1 else 0)"
    "pending (state_of (run p s)) = pending (state_of (load p s))"
    "returned (run p s) = returned (load p s)"
    using run_state [OF fresh] by blast+
  have final: "asyncCalls (foldl deliver (state_of (run p s)) calls)
           = int (length (pending (foldl deliver (state_of (run p s)) calls)))"
    "publishes (foldl deliver (state_of (run p s)) calls)
           = publishes s + (if \<not> asyncWait (state_of (run p s))
                              \<and> pending (foldl deliver (state_of (run p s)) calls) = [] then 1 else 0)"
    "pending (foldl deliver (state_of (run p s)) calls)
           = filter (\<lambda>j. j \<notin> fst ` set calls) (pending (state_of (run p s)))"
    using deliver_all_state [OF run(2) run(3)] by blast+
  have empty: "pending (foldl deliver (state_of (run p s)) calls) = []
        \<longleftrightarrow> set (pending (state_of (load p s))) \<subseteq> fst ` set calls"
    unfolding final(3) run(4) by (auto simp: filter_empty_conv)
  have count: "publishes (foldl deliver (state_of (run p s)) calls)
           = publishes s
             + (if returned (load p s) \<and> set (pending (state_of (load p s))) \<subseteq> fst ` set calls
                then 1 else 0)"
    unfolding final(2) using run(1) run(5) empty by simp
  have counter: "asyncCalls (foldl deliver (state_of (run p s)) calls)
           = int (length (filter (\<lambda>k. k \<notin> fst ` set calls) (pending (state_of (load p s)))))"
    unfolding final(1) final(3) run(4) by (rule refl)
  have later: "\<exists>later. effects (foldl deliver (state_of (run p s)) calls)
                    = effects (state_of (run p s)) @ later"
    by (rule deliver_all_effects)
  show ?thesis
    using loaded run_effects [OF fresh, of p] later count counter by (intro conjI)
qed

theorem publish_once_after_loading_witness:
  "onceCalled (new_server default_config None [] False) = []
   \<and> plain_names \<lparr>platforms = [StaticPlatform ''Nest'' Later,
                            StaticPlatform ''Hue'' (Immediately [''Lamp'']),
                            DynamicPlatform ''Ring'' 7,
                            NoPlatform ''Ghost'',
                            StaticPlatform ''Wemo'' Later],
              accessories = [Bridged ''Fan''],
              dynamicPlatforms = []\<rparr>
   \<and> publishes (foldl deliver
        (state_of (run \<lparr>platforms = [StaticPlatform ''Nest'' Later,
                            StaticPlatform ''Hue'' (Immediately [''Lamp'']),
                            DynamicPlatform ''Ring'' 7,
                            NoPlatform ''Ghost'',
                            StaticPlatform ''Wemo'' Later],
              accessories = [Bridged ''Fan''],
              dynamicPlatforms = []\<rparr>
           (new_server default_config None [] False)))
        [(0, [''Thermostat'']), (0, []), (5, []), (2, [''Switch''])]) = 1
   \<and> publishes (foldl deliver
        (state_of (run \<lparr>platforms = [StaticPlatform ''Nest'' Later,
                            StaticPlatform ''Hue'' (Immediately [''Lamp'']),
                            DynamicPlatform ''Ring'' 7,
                            NoPlatform ''Ghost'',
                            StaticPlatform ''Wemo'' Later],
              accessories = [Bridged ''Fan''],
              dynamicPlatforms = []\<rparr>
           (new_server default_config None [] False)))
        [(0, [''Thermostat'']), (0, []), (5, [])]) = 0"
proof -
  let ?s = "new_server default_config None [] False"
  let ?p = "\<lparr>platforms = [StaticPlatform ''Nest'' Later,
                            StaticPlatform ''Hue'' (Immediately [''Lamp'']),
                            DynamicPlatform ''Ring'' 7,
                            NoPlatform ''Ghost'',
                            StaticPlatform ''Wemo'' Later],
              accessories = [Bridged ''Fan''],
              dynamicPlatforms = []\<rparr>"
  have fresh: "onceCalled ?s = []" by (simp add: new_server_def)
  have names: "plain_names ?p" by code_simp
  have kept: "pending (state_of (load ?p ?s)) = [0, 2]" by code_simp
  have ret: "returned (load ?p ?s)" by code_simp
  have none: "publishes ?s = 0" by (simp add: new_server_def publishes_def)
  have "publishes (foldl deliver (state_of (run ?p ?s)) [(0, [''Thermostat'']), (0, []), (5, []), (2, [''Switch''])]) = 1"
    using publish_once_after_loading [OF fresh names, of "[(0, [''Thermostat'']), (0, []), (5, []), (2, [''Switch''])]"]
    unfolding kept none using ret by simp
  moreover have "publishes (foldl deliver (state_of (run ?p ?s)) [(0, [''Thermostat'']), (0, []), (5, [])]) = 0"
    using publish_once_after_loading [OF fresh names, of "[(0, [''Thermostat'']), (0, []), (5, [])]"]
    unfolding kept none using ret by simp
  ultimately show ?thesis using fresh names by simp
qed

text \<open>
  A platform that keeps its callback and never calls it: \<^verbatim>\<open>run\<close> returns and the
  bridge is never published.
\<close>

theorem publish_never_counterexample:
  "returned (run \<lparr>platforms = [StaticPlatform ''Nest'' Later], accessories = [], dynamicPlatforms = []\<rparr>
         (new_server default_config None [] False))
   \<and> publishes (foldl deliver
      (state_of (run \<lparr>platforms = [StaticPlatform ''Nest'' Later], accessories = [], dynamicPlatforms = []\<rparr>
         (new_server default_config None [] False)))
      []) = 0"
  by code_simp

section \<open>Properties of the shutdown\<close>

lemma on_signal_terminating: "terminating p \<Longrightarrow> foldl on_signal p sigs = p"
  by (induction sigs) (simp_all add: on_signal_def)

lemma on_signal_sets_terminating: "terminating (on_signal p signal)"
  by (simp add: on_signal_def)

text \<open>
  Claim C9. However many termination signals are delivered to a process that is not
  terminating, the result is that of the first alone: one log line, the cache persisted
  once, the bridge unpublished, every published external accessory unpublished, the
  shutdown event emitted and the exit timer set; the later signals change nothing.
\<close>

theorem teardown_once:
  assumes "\<not> terminating p"
  shows "foldl on_signal p (first # later) = on_signal p first
       \<and> effects (the_server (foldl on_signal p (first # later)))
           = effects (the_server p)
             @ [InternalInfo (''Got '' @ signal_name first @ '', shutting down Bridge...''),
                PersistSetItem (cachedPlatformAccessories (the_server p)),
                BridgeUnpublish]
             @ map AccessoryUnpublish (map fst (publishedAccessories (the_server p)))
             @ [ApiEmit ''shutdown'', SetTimeout 3000 (128 + signal_number first)]
       \<and> length (filter is_persist (effects (the_server (foldl on_signal p (first # later)))))
           = Suc (length (filter is_persist (effects (the_server p))))"
proof -
  have fold: "foldl on_signal p (first # later) = on_signal p first"
    using on_signal_terminating [OF on_signal_sets_terminating] by simp
  have eff: "effects (the_server (on_signal p first))
           = effects (the_server p)
             @ [InternalInfo (''Got '' @ signal_name first @ '', shutting down Bridge...''),
                PersistSetItem (cachedPlatformAccessories (the_server p)),
                BridgeUnpublish]
             @ map AccessoryUnpublish (map fst (publishedAccessories (the_server p)))
             @ [ApiEmit ''shutdown'', SetTimeout 3000 (128 + signal_number first)]"
    using assms by (simp add: on_signal_def teardown_def updateCachedAccessories_def emit_def)
  have "filter is_persist (map AccessoryUnpublish xs) = []" for xs :: "string list"
    by (induction xs) (simp_all add: is_persist_def)
  then have "length (filter is_persist (effects (the_server (on_signal p first))))
           = Suc (length (filter is_persist (effects (the_server p))))"
    unfolding eff by (simp add: is_persist_def)
  with fold eff show ?thesis by simp
qed

theorem teardown_once_witness:
  "\<not> terminating \<lparr>terminating = False, the_server = new_server default_config None [NotPlatform] False\<rparr>
   \<and> effects (the_server (foldl on_signal
         \<lparr>terminating = False, the_server = new_server default_config None [NotPlatform] False\<rparr>
         [SIGINT, SIGTERM, SIGTERM]))
       = [InternalInfo ''Got SIGINT, shutting down Bridge...'',
          PersistSetItem [NotPlatform],
          BridgeUnpublish,
          ApiEmit ''shutdown'',
          SetTimeout 3000 130]"
proof -
  let ?p = "\<lparr>terminating = False, the_server = new_server default_config None [NotPlatform] False\<rparr>"
  have live: "\<not> terminating ?p" by simp
  have "effects (the_server (foldl on_signal ?p [SIGINT, SIGTERM, SIGTERM]))
           = effects (the_server ?p)
             @ [InternalInfo (''Got '' @ signal_name SIGINT @ '', shutting down Bridge...''),
                PersistSetItem (cachedPlatformAccessories (the_server ?p)),
                BridgeUnpublish]
             @ map AccessoryUnpublish (map fst (publishedAccessories (the_server ?p)))
             @ [ApiEmit ''shutdown'', SetTimeout 3000 (128 + signal_number SIGINT)]"
    by (rule conjunct1 [OF conjunct2 [OF teardown_once [OF live]]])
  also have "\<dots> = [InternalInfo ''Got SIGINT, shutting down Bridge...'',
          PersistSetItem [NotPlatform],
          BridgeUnpublish,
          ApiEmit ''shutdown'',
          SetTimeout 3000 130]"
    by (simp add: new_server_def)
  finally show ?thesis using live by (rule conjI [rotated])
qed

section \<open>Properties of the new-configuration handler\<close>

text \<open>
  Claim C10. The listener of \<^verbatim>\<open>newConfig\<close> calls \<^verbatim>\<open>handleNewConfig\<close> without
  arguments: no branch is taken, the configuration in memory is unchanged, and the only
  effect is that the file is written with that configuration.
\<close>

theorem newConfig_listener_rewrites_file:
  "newConfig_listener s = Inr (s\<lparr>effects := effects s @ [WriteFile (config s)]\<rparr>)"
  by (simp add: newConfig_listener_def handleNewConfig_def emit_def)

lemma put_put: "put k v (put k w kvs) = put k v kvs"
  by (induction kvs) auto

lemma first_index_Nil: "first_index P [] = None"
  by (simp add: first_index_def)

lemma first_index_Cons:
  "first_index P (x # xs)
   = (if P x then Some 0 else (case first_index P xs of None \<Rightarrow> None | Some i \<Rightarrow> Some (Suc i)))"
  by (simp add: first_index_def)

lemma first_index_Some:
  assumes "first_index P xs = Some i"
  shows "i < length xs \<and> P (xs ! i) \<and> (\<forall>j<i. \<not> P (xs ! j))"
  using assms
proof (induction xs arbitrary: i)
  case Nil
  then show ?case by (simp add: first_index_Nil)
next
  case (Cons x xs)
  show ?case
  proof (cases "P x")
    case True
    then show ?thesis using Cons.prems by (simp add: first_index_Cons)
  next
    case False
    then obtain i' where i: "first_index P xs = Some i'" "i = Suc i'"
      using Cons.prems by (auto simp: first_index_Cons split: option.splits)
    then have "i' < length xs \<and> P (xs ! i') \<and> (\<forall>j<i'. \<not> P (xs ! j))"
      using Cons.IH by blast
    then show ?thesis using False i by (auto simp: less_Suc_eq_0_disj)
  qed
qed

lemma first_index_None: "first_index P xs = None \<longleftrightarrow> \<not> list_ex P xs"
  by (simp add: first_index_def)

lemma entry_matches_defined:
  assumes "entry \<noteq> JNull" and "entry \<noteq> JUndefined"
  shows "entry_matches key name target entry = Inr (entry_matches key name target entry = Inr True)"
  using assms by (cases entry) (auto simp: entry_matches_def)

lemma find_entry_first_index:
  assumes "list_all (\<lambda>e. e \<noteq> JNull \<and> e \<noteq> JUndefined) xs"
  shows "find_entry key name (targetName_of name) xs = Inr (first_index (matches key name) xs)"
  using assms
proof (induction xs)
  case Nil
  then show ?case by (simp add: first_index_Nil)
next
  case (Cons e xs)
  then have e: "e \<noteq> JNull" "e \<noteq> JUndefined"
    and rest: "find_entry key name (targetName_of name) xs = Inr (first_index (matches key name) xs)"
    by simp_all
  show ?case
  proof (cases "matches key name e")
    case True
    then show ?thesis by (simp add: matches_def first_index_Cons)
  next
    case False
    then have "entry_matches key name (targetName_of name) e = Inr False"
      using entry_matches_defined [OF e, of key name "targetName_of name"] by (simp add: matches_def)
    then show ?thesis
      using rest False by (simp add: first_index_Cons split: option.splits)
  qed
qed

lemma replace_entry_array:
  assumes "list_all (\<lambda>e. e \<noteq> JNull \<and> e \<noteq> JUndefined) xs"
  shows "replace_entry key name (targetName_of name) (JArr xs []) x
         = Inr (JArr (case first_index (matches key name) xs of
                        Some i \<Rightarrow> xs[i := x] | None \<Rightarrow> xs @ [x]) [])"
proof (cases "first_index (matches key name) xs")
  case None
  then show ?thesis using find_entry_first_index [OF assms, of key name] by simp
next
  case (Some i)
  then have "i < length xs" using first_index_Some by blast
  then show ?thesis using Some find_entry_first_index [OF assms, of key name] by simp
qed

lemma apply_config_replace:
  assumes list: "get_prop (JObj kvs) list_key = Inr l"
    and shape: "l = JArr xs [] \<or> (\<not> truthy l \<and> xs = [])"
    and entries: "list_all (\<lambda>e. e \<noteq> JNull \<and> e \<noteq> JUndefined) xs"
  shows "apply_config list_key key (Some name) True x (JObj kvs)
         = Inr (JObj (put list_key
                  (JArr (case first_index (matches key name) xs of
                           Some i \<Rightarrow> xs[i := x] | None \<Rightarrow> xs @ [x]) []) kvs))"
proof -
  let ?ys = "case first_index (matches key name) xs of Some i \<Rightarrow> xs[i := x] | None \<Rightarrow> xs @ [x]"
  have rep: "replace_entry key name (targetName_of name) (JArr xs []) x = Inr (JArr ?ys [])"
    by (rule replace_entry_array [OF entries])
  from shape show ?thesis
  proof
    assume l: "l = JArr xs []"
    then show ?thesis using list rep by (simp add: apply_config_def)
  next
    assume l: "\<not> truthy l \<and> xs = []"
    have "get_prop (JObj (put list_key (JArr [] []) kvs)) list_key = Inr (JArr [] [])"
      by (simp add: map_of_put)
    then show ?thesis
      using list l rep by (simp add: apply_config_def put_put)
  qed
qed

lemma first_index_first:
  assumes "i < length xs" and "P (xs ! i)" and "\<forall>j<i. \<not> P (xs ! j)"
  shows "first_index P xs = Some i"
proof -
  have "list_ex P xs"
    using assms(1,2) by (auto simp: list_ex_iff)
  then obtain k where k: "first_index P xs = Some k"
    by (simp add: first_index_def)
  then have first: "k < length xs" "P (xs ! k)" "\<forall>j<k. \<not> P (xs ! j)"
    using first_index_Some by blast+
  have "\<not> k < i" using assms(3) first(2) by blast
  moreover have "\<not> i < k" using first(3) assms(2) by blast
  ultimately have "k = i" by simp
  then show ?thesis using k by simp
qed

lemma first_index_no_hit:
  assumes "\<forall>j<length xs. \<not> P (xs ! j)"
  shows "first_index P xs = None"
proof -
  have "\<not> list_ex P xs"
    using assms by (auto simp: list_ex_iff in_set_conv_nth)
  then show ?thesis by (rule iffD2 [OF first_index_None])
qed

text \<open>
  \<^verbatim>\<open>split(".")\<close> in terms of the text before the first dot and the text after it, and
  with that \<^verbatim>\<open>name.split(".")[1]\<close> as the text between the first dot and the second
  (or the end).
\<close>

lemma split_dot_unfold:
  "split_dot s
   = takeWhile (\<lambda>c. c \<noteq> CHR ''.'') s
     # (case dropWhile (\<lambda>c. c \<noteq> CHR ''.'') s of [] \<Rightarrow> [] | d # rest \<Rightarrow> split_dot rest)"
  by (induction s) (auto split: list.splits)

lemma second_part_between_dots:
  assumes "CHR ''.'' \<in> set name"
  shows "second_part name
         = Some (takeWhile (\<lambda>c. c \<noteq> CHR ''.'') (drop 1 (dropWhile (\<lambda>c. c \<noteq> CHR ''.'') name)))"
proof -
  have "dropWhile (\<lambda>c. c \<noteq> CHR ''.'') name \<noteq> []"
    using assms by auto
  then obtain d rest where rest: "dropWhile (\<lambda>c. c \<noteq> CHR ''.'') name = d # rest"
    by (cases "dropWhile (\<lambda>c. c \<noteq> CHR ''.'') name") auto
  have "split_dot name = takeWhile (\<lambda>c. c \<noteq> CHR ''.'') name # split_dot rest"
    using split_dot_unfold [of name] rest by simp
  also have "split_dot rest
        = takeWhile (\<lambda>c. c \<noteq> CHR ''.'') rest
          # (case dropWhile (\<lambda>c. c \<noteq> CHR ''.'') rest of [] \<Rightarrow> [] | d # rest' \<Rightarrow> split_dot rest')"
    by (rule split_dot_unfold)
  finally have "second_part name = Some (takeWhile (\<lambda>c. c \<noteq> CHR ''.'') rest)"
    by (simp add: second_part_def)
  then show ?thesis using rest by simp
qed

lemma no_dot_no_part:
  assumes "CHR ''.'' \<notin> set name"
  shows "takeWhile (\<lambda>c. c \<noteq> CHR ''.'') (drop 1 (dropWhile (\<lambda>c. c \<noteq> CHR ''.'') name)) = []"
proof -
  have "dropWhile (\<lambda>c. c \<noteq> CHR ''.'') name = []"
    using assms by auto
  then show ?thesis by (simp only: drop_Nil takeWhile.simps)
qed

lemma between_dots:
  assumes "name = a @ ''.'' @ t @ r" and "CHR ''.'' \<notin> set a" and "CHR ''.'' \<notin> set t"
    and "r = [] \<or> hd r = CHR ''.''"
  shows "takeWhile (\<lambda>c. c \<noteq> CHR ''.'') (drop 1 (dropWhile (\<lambda>c. c \<noteq> CHR ''.'') name)) = t"
proof -
  have "\<forall>c\<in>set a. c \<noteq> CHR ''.''"
    using assms(2) by blast
  then have "dropWhile (\<lambda>c. c \<noteq> CHR ''.'') name = ''.'' @ t @ r"
    unfolding assms(1) by simp
  then have "drop 1 (dropWhile (\<lambda>c. c \<noteq> CHR ''.'') name) = t @ r" by simp
  moreover have "takeWhile (\<lambda>c. c \<noteq> CHR ''.'') (t @ r) = t"
  proof (cases r)
    case Nil
    then show ?thesis using assms(3) by auto
  next
    case (Cons c r')
    then have "c = CHR ''.''" using assms(4) by simp
    then show ?thesis using Cons assms(3) by (auto simp: takeWhile_tail)
  qed
  ultimately show ?thesis by simp
qed

lemma matches_explicit:
  "matches key name e
   \<longleftrightarrow> get_prop e key = Inr (JStr name)
       \<or> (takeWhile (\<lambda>c. c \<noteq> CHR ''.'') (drop 1 (dropWhile (\<lambda>c. c \<noteq> CHR ''.'') name)) \<noteq> []
          \<and> get_prop e key
              = Inr (JStr (takeWhile (\<lambda>c. c \<noteq> CHR ''.'') (drop 1 (dropWhile (\<lambda>c. c \<noteq> CHR ''.'') name)))))"
proof (cases "CHR ''.'' \<in> set name")
  case True
  then have "targetName_of name
      = Some (takeWhile (\<lambda>c. c \<noteq> CHR ''.'') (drop 1 (dropWhile (\<lambda>c. c \<noteq> CHR ''.'') name)))"
    by (simp add: targetName_of_def second_part_between_dots)
  then show ?thesis
    by (cases "get_prop e key") (auto simp: matches_def entry_matches_def)
next
  case False
  then have "targetName_of name = None"
    by (simp add: targetName_of_def)
  moreover have "takeWhile (\<lambda>c. c \<noteq> CHR ''.'') (drop 1 (dropWhile (\<lambda>c. c \<noteq> CHR ''.'') name)) = []"
    using False by (rule no_dot_no_part)
  ultimately show ?thesis
    by (cases "get_prop e key") (auto simp: matches_def entry_matches_def)
qed

text \<open>
  Claim C6, as the code has it. For \<^verbatim>\<open>replace\<close> on the accessories or the platforms,
  with a list that is an array of entries (or absent, which makes it empty). An entry is
  a hit when its \<^verbatim>\<open>accessory\<close> (or \<^verbatim>\<open>platform\<close>) property is the given name, or is the
  text of the given name between its first dot and its second dot (or its end) and that
  text is not empty. The first hit in the order of the list is overwritten with the new
  configuration, the length of the list unchanged; without a hit the new configuration is
  appended. The file is written with the result, and the list of the written
  configuration is the new list.
\<close>

theorem replace_overwrites_first_hit:
  assumes cfg: "config s = JObj kvs"
    and kind: "(type, list_key, key) = (''accessory'', ''accessories'', ''accessory'')
             \<or> (type, list_key, key) = (''platform'', ''platforms'', ''platform'')"
    and list: "get_prop (JObj kvs) list_key = Inr l"
    and shape: "l = JArr xs [] \<or> (\<not> truthy l \<and> xs = [])"
    and entries: "list_all (\<lambda>e. e \<noteq> JNull \<and> e \<noteq> JUndefined) xs"
  shows "let part = takeWhile (\<lambda>c. c \<noteq> CHR ''.'') (drop 1 (dropWhile (\<lambda>c. c \<noteq> CHR ''.'') name));
             hit = (\<lambda>e. get_prop e key = Inr (JStr name)
                        \<or> (part \<noteq> [] \<and> get_prop e key = Inr (JStr part)));
             written = (\<lambda>ys. emit [WriteFile (JObj (put list_key (JArr ys []) kvs))]
                               (s\<lparr>config := JObj (put list_key (JArr ys []) kvs)\<rparr>))
         in (\<forall>i. i < length xs \<and> hit (xs ! i) \<and> (\<forall>j<i. \<not> hit (xs ! j)) \<longrightarrow>
                handleNewConfig (Some type) (Some name) True x s = Inr (written (xs[i := x]))
                \<and> length (xs[i := x]) = length xs \<and> xs[i := x] ! i = x)
          \<and> ((\<forall>j<length xs. \<not> hit (xs ! j)) \<longrightarrow>
                handleNewConfig (Some type) (Some name) True x s = Inr (written (xs @ [x])))
          \<and> (\<forall>ys. get_prop (JObj (put list_key (JArr ys []) kvs)) list_key = Inr (JArr ys []))"
proof -
  let ?part = "takeWhile (\<lambda>c. c \<noteq> CHR ''.'') (drop 1 (dropWhile (\<lambda>c. c \<noteq> CHR ''.'') name))"
  let ?hit = "\<lambda>e. get_prop e key = Inr (JStr name) \<or> (?part \<noteq> [] \<and> get_prop e key = Inr (JStr ?part))"
  let ?written = "\<lambda>ys. emit [WriteFile (JObj (put list_key (JArr ys []) kvs))]
                               (s\<lparr>config := JObj (put list_key (JArr ys []) kvs)\<rparr>)"
  let ?ys = "case first_index (matches key name) xs of Some i \<Rightarrow> xs[i := x] | None \<Rightarrow> xs @ [x]"
  have same: "matches key name = ?hit"
    by (rule ext) (rule matches_explicit)
  have app: "apply_config list_key key (Some name) True x (JObj kvs)
             = Inr (JObj (put list_key (JArr ?ys []) kvs))"
    by (rule apply_config_replace [OF list shape entries])
  have run: "handleNewConfig (Some type) (Some name) True x s = Inr (?written ?ys)"
    using kind
  proof
    assume "(type, list_key, key) = (''accessory'', ''accessories'', ''accessory'')"
    then show ?thesis using app cfg by (simp add: handleNewConfig_def)
  next
    assume "(type, list_key, key) = (''platform'', ''platforms'', ''platform'')"
    then show ?thesis using app cfg by (simp add: handleNewConfig_def)
  qed
  have found: "handleNewConfig (Some type) (Some name) True x s = Inr (?written (xs[i := x]))
                \<and> length (xs[i := x]) = length xs \<and> xs[i := x] ! i = x"
    if "i < length xs \<and> ?hit (xs ! i) \<and> (\<forall>j<i. \<not> ?hit (xs ! j))" for i
  proof -
    have "first_index ?hit xs = Some i"
      using that by (intro first_index_first) blast+
    then have "first_index (matches key name) xs = Some i"
      by (simp only: same)
    then have "?ys = xs[i := x]" by simp
    then show ?thesis using run that by simp
  qed
  have missing: "handleNewConfig (Some type) (Some name) True x s = Inr (?written (xs @ [x]))"
    if "\<forall>j<length xs. \<not> ?hit (xs ! j)"
  proof -
    have "first_index ?hit xs = None"
      using that by (rule first_index_no_hit)
    then have "first_index (matches key name) xs = None"
      by (simp only: same)
    then have "?ys = xs @ [x]" by simp
    then show ?thesis using run by simp
  qed
  have read: "get_prop (JObj (put list_key (JArr ys []) kvs)) list_key = Inr (JArr ys [])" for ys
    by (simp add: map_of_put)
  show ?thesis
    unfolding Let_def using found missing read by blast
qed

theorem replace_overwrites_first_hit_witness:
  "handleNewConfig (Some ''platform'') (Some ''homebridge-hue.Hue'') True
     (JObj [(''platform'', JStr ''homebridge-hue.Hue''), (''name'', JStr ''new'')])
     (new_server
        (JObj [(''platforms'',
                JArr [JObj [(''platform'', JStr ''Nest'')],
                      JObj [(''platform'', JStr ''Hue''), (''name'', JStr ''old'')]] [])])
        None [] False)
   = Inr ((new_server
        (JObj [(''platforms'',
                JArr [JObj [(''platform'', JStr ''Nest'')],
                      JObj [(''platform'', JStr ''homebridge-hue.Hue''), (''name'', JStr ''new'')]] [])])
        None [] False)
      \<lparr>effects :=
         [WriteFile
           (JObj [(''platforms'',
                JArr [JObj [(''platform'', JStr ''Nest'')],
                      JObj [(''platform'', JStr ''homebridge-hue.Hue''), (''name'', JStr ''new'')]] [])])]\<rparr>)"
proof -
  let ?x = "JObj [(''platform'', JStr ''homebridge-hue.Hue''), (''name'', JStr ''new'')]"
  let ?xs = "[JObj [(''platform'', JStr ''Nest'')],
              JObj [(''platform'', JStr ''Hue''), (''name'', JStr ''old'')]]"
  let ?kvs = "[(''platforms'', JArr ?xs [])]"
  let ?s = "new_server (JObj ?kvs) None [] False"
  let ?part = "takeWhile (\<lambda>c. c \<noteq> CHR ''.'') (drop 1 (dropWhile (\<lambda>c. c \<noteq> CHR ''.'') ''homebridge-hue.Hue''))"
  let ?hit = "\<lambda>e. get_prop e ''platform'' = Inr (JStr ''homebridge-hue.Hue'')
                  \<or> (?part \<noteq> [] \<and> get_prop e ''platform'' = Inr (JStr ?part))"
  have cfg: "config ?s = JObj ?kvs" by (simp add: new_server_def)
  have kind: "(''platform'', ''platforms'', ''platform'') = (''accessory'', ''accessories'', ''accessory'')
             \<or> (''platform'', ''platforms'', ''platform'') = (''platform'', ''platforms'', ''platform'')"
    by simp
  have list: "get_prop (JObj ?kvs) ''platforms'' = Inr (JArr ?xs [])" by simp
  have shape: "JArr ?xs [] = JArr ?xs [] \<or> (\<not> truthy (JArr ?xs []) \<and> ?xs = [])" by simp
  have entries: "list_all (\<lambda>e. e \<noteq> JNull \<and> e \<noteq> JUndefined) ?xs" by simp
  have second: "?hit (?xs ! 1)" by code_simp
  have first: "\<not> ?hit (?xs ! 0)" by code_simp
  have at: "1 < length ?xs \<and> ?hit (?xs ! 1) \<and> (\<forall>j<1. \<not> ?hit (?xs ! j))"
    using second first by (simp only: less_one) simp
  have "handleNewConfig (Some ''platform'') (Some ''homebridge-hue.Hue'') True ?x ?s
        = Inr (emit [WriteFile (JObj (put ''platforms'' (JArr (?xs[1 := ?x]) []) ?kvs))]
                 (?s\<lparr>config := JObj (put ''platforms'' (JArr (?xs[1 := ?x]) []) ?kvs)\<rparr>))"
    using replace_overwrites_first_hit [OF cfg kind list shape entries,
        where name = "''homebridge-hue.Hue''" and x = ?x]
    unfolding Let_def using at by blast
  also have "\<dots> = Inr ((new_server (JObj [(''platforms'', JArr [JObj [(''platform'', JStr ''Nest'')], ?x] [])]) None [] False)
      \<lparr>effects := [WriteFile (JObj [(''platforms'', JArr [JObj [(''platform'', JStr ''Nest'')], ?x] [])])]\<rparr>)"
    by (simp add: new_server_def emit_def)
  finally show ?thesis .
qed

text \<open>
  An entry with the part after the dot stands before the entry with exactly the name: the
  code overwrites the former, where the specification's wording overwrites the latter.
  And for the name \<^verbatim>\<open>a.b.c\<close> the code overwrites an entry named \<^verbatim>\<open>b\<close>, which is no
  suffix of the name: the specification's wording, with the suffix \<^verbatim>\<open>b.c\<close> or with the
  suffix \<^verbatim>\<open>c\<close>, appends.
\<close>

theorem exact_match_not_first_counterexample:
  "handleNewConfig (Some ''accessory'') (Some ''A.B'') True
     (JObj [(''accessory'', JStr ''A.B''), (''name'', JStr ''new'')])
     (new_server
        (JObj [(''accessories'',
                JArr [JObj [(''accessory'', JStr ''B''), (''name'', JStr ''first'')],
                      JObj [(''accessory'', JStr ''A.B''), (''name'', JStr ''second'')]] [])])
        None [] False)
   = Inr ((new_server
        (JObj [(''accessories'',
                JArr [JObj [(''accessory'', JStr ''A.B''), (''name'', JStr ''new'')],
                      JObj [(''accessory'', JStr ''A.B''), (''name'', JStr ''second'')]] [])])
        None [] False)
      \<lparr>effects :=
         [WriteFile
           (JObj [(''accessories'',
                JArr [JObj [(''accessory'', JStr ''A.B''), (''name'', JStr ''new'')],
                      JObj [(''accessory'', JStr ''A.B''), (''name'', JStr ''second'')]] [])])]\<rparr>)
   \<and> spec_replace ''accessory'' ''A.B'' (Some ''B'')
        [JObj [(''accessory'', JStr ''B''), (''name'', JStr ''first'')],
         JObj [(''accessory'', JStr ''A.B''), (''name'', JStr ''second'')]]
        (JObj [(''accessory'', JStr ''A.B''), (''name'', JStr ''new'')])
      = [JObj [(''accessory'', JStr ''B''), (''name'', JStr ''first'')],
         JObj [(''accessory'', JStr ''A.B''), (''name'', JStr ''new'')]]
   \<and> handleNewConfig (Some ''accessory'') (Some ''a.b.c'') True
       (JObj [(''accessory'', JStr ''a.b.c''), (''name'', JStr ''new'')])
       (new_server
          (JObj [(''accessories'', JArr [JObj [(''accessory'', JStr ''b''), (''name'', JStr ''old'')]] [])])
          None [] False)
     = Inr ((new_server
          (JObj [(''accessories'',
                  JArr [JObj [(''accessory'', JStr ''a.b.c''), (''name'', JStr ''new'')]] [])])
          None [] False)
        \<lparr>effects :=
           [WriteFile
             (JObj [(''accessories'',
                  JArr [JObj [(''accessory'', JStr ''a.b.c''), (''name'', JStr ''new'')]] [])])]\<rparr>)
   \<and> spec_replace ''accessory'' ''a.b.c'' (Some ''b.c'')
        [JObj [(''accessory'', JStr ''b''), (''name'', JStr ''old'')]]
        (JObj [(''accessory'', JStr ''a.b.c''), (''name'', JStr ''new'')])
      = [JObj [(''accessory'', JStr ''b''), (''name'', JStr ''old'')],
         JObj [(''accessory'', JStr ''a.b.c''), (''name'', JStr ''new'')]]
   \<and> spec_replace ''accessory'' ''a.b.c'' (Some ''c'')
        [JObj [(''accessory'', JStr ''b''), (''name'', JStr ''old'')]]
        (JObj [(''accessory'', JStr ''a.b.c''), (''name'', JStr ''new'')])
      = [JObj [(''accessory'', JStr ''b''), (''name'', JStr ''old'')],
         JObj [(''accessory'', JStr ''a.b.c''), (''name'', JStr ''new'')]]"
  by code_simp

text \<open>
  A name that ends with its only dot has an empty part after it: an entry with the empty
  name is no hit (line 582 tests \<^verbatim>\<open>targetName\<close> first), and the configuration is
  appended.
\<close>

lemma empty_part_appends:
  "handleNewConfig (Some ''accessory'') (Some ''A.'') True
     (JObj [(''accessory'', JStr ''A.'')])
     (new_server (JObj [(''accessories'', JArr [JObj [(''accessory'', JStr [])]] [])]) None [] False)
   = Inr ((new_server
        (JObj [(''accessories'', JArr [JObj [(''accessory'', JStr [])], JObj [(''accessory'', JStr ''A.'')]] [])])
        None [] False)
      \<lparr>effects :=
         [WriteFile
           (JObj [(''accessories'',
                   JArr [JObj [(''accessory'', JStr [])], JObj [(''accessory'', JStr ''A.'')]] [])])]\<rparr>)"
  by code_simp


end
